theory Spec2Isabelle
  imports Main "HOL-Library.Multiset" "HOL-Library.AList" "HOL-Library.Char_ord"
    "HOL-Library.List_Lexorder"
begin

section \<open>Strings and character classes\<close>

text \<open>
  Python strings are modelled as \<^typ>\<open>string\<close>: a character is a code point below 256,
  which covers the ASCII identifiers, type names and signatures of the scraped API
  reference and the no-break space U+00A0 the scraper removes from the documentation.
  The classes below are Python's on these code points: \<^verbatim>\<open>[A-Z]\<close>, \<^verbatim>\<open>[a-z]\<close> and \<^verbatim>\<open>\d\<close>
  hold ASCII characters only, \<^verbatim>\<open>\w\<close> and \<^verbatim>\<open>\s\<close> also hold characters above 0x7F, and
  \<open>str.lower\<close> also lowers the capital letters of Latin-1.
\<close>

definition ascii_uppercase :: string where
  "ascii_uppercase = ''ABCDEFGHIJKLMNOPQRSTUVWXYZ''"

definition ascii_lowercase :: string where
  "ascii_lowercase = ''abcdefghijklmnopqrstuvwxyz''"

text \<open>The capital letters U+00C0 to U+00DE (without the multiplication sign U+00D7) and
  their small letters U+00E0 to U+00FE, 32 code points further.\<close>

definition latin1_uppercase :: string where
  "latin1_uppercase =
     [CHR 0xC0, CHR 0xC1, CHR 0xC2, CHR 0xC3, CHR 0xC4, CHR 0xC5,
      CHR 0xC6, CHR 0xC7, CHR 0xC8, CHR 0xC9, CHR 0xCA, CHR 0xCB,
      CHR 0xCC, CHR 0xCD, CHR 0xCE, CHR 0xCF, CHR 0xD0, CHR 0xD1,
      CHR 0xD2, CHR 0xD3, CHR 0xD4, CHR 0xD5, CHR 0xD6, CHR 0xD8,
      CHR 0xD9, CHR 0xDA, CHR 0xDB, CHR 0xDC, CHR 0xDD, CHR 0xDE]"

definition latin1_lowercase :: string where
  "latin1_lowercase =
     [CHR 0xE0, CHR 0xE1, CHR 0xE2, CHR 0xE3, CHR 0xE4, CHR 0xE5,
      CHR 0xE6, CHR 0xE7, CHR 0xE8, CHR 0xE9, CHR 0xEA, CHR 0xEB,
      CHR 0xEC, CHR 0xED, CHR 0xEE, CHR 0xEF, CHR 0xF0, CHR 0xF1,
      CHR 0xF2, CHR 0xF3, CHR 0xF4, CHR 0xF5, CHR 0xF6, CHR 0xF8,
      CHR 0xF9, CHR 0xFA, CHR 0xFB, CHR 0xFC, CHR 0xFD, CHR 0xFE]"

text \<open>The characters above 0x7F for which \<open>str.isalnum\<close> holds: the ordinal indicators,
  the superscript digits, the micro sign, the vulgar fractions and the letters.\<close>

definition latin1_alnum :: string where
  "latin1_alnum =
     [CHR 0xAA, CHR 0xB2, CHR 0xB3, CHR 0xB5, CHR 0xB9, CHR 0xBA,
      CHR 0xBC, CHR 0xBD, CHR 0xBE, CHR 0xC0, CHR 0xC1, CHR 0xC2,
      CHR 0xC3, CHR 0xC4, CHR 0xC5, CHR 0xC6, CHR 0xC7, CHR 0xC8,
      CHR 0xC9, CHR 0xCA, CHR 0xCB, CHR 0xCC, CHR 0xCD, CHR 0xCE,
      CHR 0xCF, CHR 0xD0, CHR 0xD1, CHR 0xD2, CHR 0xD3, CHR 0xD4,
      CHR 0xD5, CHR 0xD6, CHR 0xD8, CHR 0xD9, CHR 0xDA, CHR 0xDB,
      CHR 0xDC, CHR 0xDD, CHR 0xDE, CHR 0xDF, CHR 0xE0, CHR 0xE1,
      CHR 0xE2, CHR 0xE3, CHR 0xE4, CHR 0xE5, CHR 0xE6, CHR 0xE7,
      CHR 0xE8, CHR 0xE9, CHR 0xEA, CHR 0xEB, CHR 0xEC, CHR 0xED,
      CHR 0xEE, CHR 0xEF, CHR 0xF0, CHR 0xF1, CHR 0xF2, CHR 0xF3,
      CHR 0xF4, CHR 0xF5, CHR 0xF6, CHR 0xF8, CHR 0xF9, CHR 0xFA,
      CHR 0xFB, CHR 0xFC, CHR 0xFD, CHR 0xFE, CHR 0xFF]"

definition is_upper :: "char \<Rightarrow> bool" where
  "is_upper c = (c \<in> set ascii_uppercase)"

definition is_lower :: "char \<Rightarrow> bool" where
  "is_lower c = (c \<in> set ascii_lowercase)"

definition is_digit :: "char \<Rightarrow> bool" where
  "is_digit c = (c \<in> set ''0123456789'')"

definition is_lower_or_digit :: "char \<Rightarrow> bool" where
  "is_lower_or_digit c = (is_lower c \<or> is_digit c)"

text \<open>\<^verbatim>\<open>\w\<close> on a \<open>str\<close>: the alphanumeric characters and the underscore.\<close>

definition is_word :: "char \<Rightarrow> bool" where
  "is_word c =
     (is_upper c \<or> is_lower c \<or> is_digit c \<or> c = CHR ''_'' \<or> c \<in> set latin1_alnum)"

text \<open>Whitespace as \<open>str.isspace\<close>, \<open>str.strip\<close> and \<^verbatim>\<open>\s\<close> see it: tab, newline,
  vertical tab, form feed, carriage return, the four separators 0x1C to 0x1F, the space,
  the next-line character U+0085 and the no-break space U+00A0.\<close>

definition is_space :: "char \<Rightarrow> bool" where
  "is_space c = (c \<in> set [CHR 0x09, CHR 0x0A, CHR 0x0B, CHR 0x0C, CHR 0x0D,
                          CHR 0x1C, CHR 0x1D, CHR 0x1E, CHR 0x1F, CHR '' '',
                          CHR 0x85, CHR 0xA0])"

definition lower_char :: "char \<Rightarrow> char" where
  "lower_char c =
     (case map_of (zip (ascii_uppercase @ latin1_uppercase)
                       (ascii_lowercase @ latin1_lowercase)) c of
        Some l \<Rightarrow> l
      | None \<Rightarrow> c)"

definition lower :: "string \<Rightarrow> string" where
  "lower s = map lower_char s"

section \<open>Regular expressions\<close>

text \<open>
  The patterns of the scraper are sequences of single-character classes, greedy
  repetitions of a class, the word boundary \<^verbatim>\<open>\b\<close> and a lookahead. \<open>re_items\<close> matches
  such a sequence at the head of a string the way Python's backtracking matcher does: a
  repetition first takes one more character and gives it back only when the rest of the
  pattern fails. The result is the text matched by each item and the unmatched rest.
  \<open>prev\<close> is the character before the current position (\<open>None\<close> at the start).
\<close>

datatype item =
    One "char \<Rightarrow> bool"
  | Many "char \<Rightarrow> bool"
  | Many1 "char \<Rightarrow> bool"
  | Boundary
  | Ahead "item list"

definition skip :: "(string list \<times> string) option \<Rightarrow> (string list \<times> string) option" where
  "skip m = map_option (\<lambda>(gs, r). ([] # gs, r)) m"

definition word_before :: "char option \<Rightarrow> bool" where
  "word_before prev = (case prev of None \<Rightarrow> False | Some c \<Rightarrow> is_word c)"

definition word_after :: "string \<Rightarrow> bool" where
  "word_after s = (case s of [] \<Rightarrow> False | c # _ \<Rightarrow> is_word c)"

fun re_items :: "item list \<Rightarrow> char option \<Rightarrow> string \<Rightarrow> (string list \<times> string) option" where
  "re_items [] prev s = Some ([], s)"
| "re_items (One p # its) prev [] = None"
| "re_items (One p # its) prev (c # cs) =
     (if p c then map_option (\<lambda>(gs, r). ([c] # gs, r)) (re_items its (Some c) cs) else None)"
| "re_items (Many p # its) prev [] = skip (re_items its prev [])"
| "re_items (Many p # its) prev (c # cs) =
     (if p c then
        (case re_items (Many p # its) (Some c) cs of
           Some (g # gs, r) \<Rightarrow> Some ((c # g) # gs, r)
         | _ \<Rightarrow> skip (re_items its prev (c # cs)))
      else skip (re_items its prev (c # cs)))"
| "re_items (Many1 p # its) prev [] = None"
| "re_items (Many1 p # its) prev (c # cs) =
     (if p c then
        (case re_items (Many p # its) (Some c) cs of
           Some (g # gs, r) \<Rightarrow> Some ((c # g) # gs, r)
         | _ \<Rightarrow> None)
      else None)"
| "re_items (Boundary # its) prev s =
     (if word_before prev \<noteq> word_after s then skip (re_items its prev s) else None)"
| "re_items (Ahead la # its) prev s =
     (case re_items la prev s of
        None \<Rightarrow> None
      | Some _ \<Rightarrow> skip (re_items its prev s))"

text \<open>\<open>re.match\<close>: the pattern at the start of the string.\<close>

definition re_match :: "item list \<Rightarrow> string \<Rightarrow> (string list \<times> string) option" where
  "re_match pat s = re_items pat None s"

text \<open>\<open>re.search\<close>: the leftmost position where the pattern matches.\<close>

fun re_search :: "item list \<Rightarrow> char option \<Rightarrow> string \<Rightarrow> (string list \<times> string) option" where
  "re_search pat prev [] = re_items pat prev []"
| "re_search pat prev (c # cs) =
     (case re_items pat prev (c # cs) of
        Some m \<Rightarrow> Some m
      | None \<Rightarrow> re_search pat (Some c) cs)"

text \<open>
  \<open>re.sub\<close>: every leftmost non-overlapping match is replaced, the characters between
  matches are copied. \<open>repl\<close> builds the replacement from the texts of the items. The two
  patterns \<open>to_snake\<close> substitutes consume two characters or more; where a match consumes
  nothing the character is copied.
\<close>

fun re_sub :: "item list \<Rightarrow> (string list \<Rightarrow> string) \<Rightarrow> char option \<Rightarrow> string \<Rightarrow> string" where
  "re_sub pat repl prev [] = []"
| "re_sub pat repl prev (c # cs) =
     (case re_items pat prev (c # cs) of
        None \<Rightarrow> c # re_sub pat repl (Some c) cs
      | Some (gs, r) \<Rightarrow>
          if length r < Suc (length cs)
          then repl gs @ re_sub pat repl (Some (last (take (Suc (length cs) - length r) (c # cs)))) r
          else c # re_sub pat repl (Some c) cs)"

section \<open>Snake-casing\<close>

text \<open>
  \<^verbatim>\<open>s = re.sub(r"([A-Z]+)([A-Z][a-z])", r"\1_\2", s)\<close>,
  \<^verbatim>\<open>s = re.sub(r"([a-z\d])([A-Z])", r"\1_\2", s)\<close>, \<^verbatim>\<open>s = s.lower()\<close>.
  In both patterns group 1 is the first item and group 2 the remaining ones.
\<close>

definition caps_then_word :: "item list" where
  "caps_then_word = [Many1 is_upper, One is_upper, One is_lower]"

definition lower_then_cap :: "item list" where
  "lower_then_cap = [One is_lower_or_digit, One is_upper]"

definition underscore_between :: "string list \<Rightarrow> string" where
  "underscore_between gs = hd gs @ ''_'' @ concat (tl gs)"

definition to_snake :: "string \<Rightarrow> string" where
  "to_snake s =
     lower (re_sub lower_then_cap underscore_between None
             (re_sub caps_then_word underscore_between None s))"

section \<open>String operations\<close>

text \<open>\<open>s.startswith(p)\<close>, \<open>s.endswith(p)\<close> and \<open>p in s\<close>.\<close>

definition startswith :: "string \<Rightarrow> string \<Rightarrow> bool" where
  "startswith s p = (take (length p) s = p)"

definition endswith :: "string \<Rightarrow> string \<Rightarrow> bool" where
  "endswith s p = (length p \<le> length s \<and> drop (length s - length p) s = p)"

fun contains :: "string \<Rightarrow> string \<Rightarrow> bool" where
  "contains [] p = (p = [])"
| "contains (c # cs) p = (startswith (c # cs) p \<or> contains cs p)"

text \<open>
  \<open>s.replace(old, new)\<close>: the occurrences of \<open>old\<close> are replaced from the left and do not
  overlap. With an empty \<open>old\<close> Python puts \<open>new\<close> before every character and at the end.
\<close>

fun replace_from :: "string \<Rightarrow> string \<Rightarrow> string \<Rightarrow> string" where
  "replace_from old new [] = []"
| "replace_from old new (c # cs) =
     (if startswith (c # cs) old
      then new @ replace_from old new (drop (length old - 1) cs)
      else c # replace_from old new cs)"

definition replace :: "string \<Rightarrow> string \<Rightarrow> string \<Rightarrow> string" where
  "replace s old new =
     (if old = [] then new @ concat (map (\<lambda>c. c # new) s) else replace_from old new s)"

text \<open>\<open>s.split(sep)\<close> for a separator of one character: the result is never empty.\<close>

fun split :: "string \<Rightarrow> char \<Rightarrow> string list" where
  "split [] sep = [[]]"
| "split (c # cs) sep =
     (if c = sep then [] # split cs sep
      else (case split cs sep of [] \<Rightarrow> [[c]] | w # ws \<Rightarrow> (c # w) # ws))"

text \<open>\<open>s.split(sep, maxsplit=1)\<close>: cut at the first occurrence of \<open>sep\<close>, if any.\<close>

fun split_once :: "string \<Rightarrow> string \<Rightarrow> string list" where
  "split_once [] sep = [[]]"
| "split_once (c # cs) sep =
     (if sep \<noteq> [] \<and> startswith (c # cs) sep then [[], drop (length sep - 1) cs]
      else (case split_once cs sep of
              [] \<Rightarrow> [[c]]
            | w # ws \<Rightarrow> (c # w) # ws))"

definition strip :: "string \<Rightarrow> string" where
  "strip s = rev (dropWhile is_space (rev (dropWhile is_space s)))"

section \<open>Data model\<close>

text \<open>
  The dataclasses \<open>ReaType\<close> and \<open>ReaFunc\<close>. A field that may be \<open>None\<close> is an option. The
  private field \<open>_default_value\<close> is \<open>cached_default_value\<close>.
\<close>

record ReaType =
  reascript_type :: string
  name :: "string option"
  is_optional :: bool
  description :: "string option"
  is_pointer :: bool
  cached_default_value :: "string option"

record ReaFunc =
  signature :: string
  reascript_name :: string
  fn_name_space :: "string option"
  arguments :: "ReaType list"
  return_values :: "ReaType list"
  docs :: "string option"
  reawrap_name :: "string option"
  constants :: "ReaType list option"

text \<open>The constructor call \<open>ReaType(reascript_type=t, name=n, is_optional=b)\<close>, the other
  fields at their defaults.\<close>

definition new_ReaType :: "string \<Rightarrow> string option \<Rightarrow> bool \<Rightarrow> ReaType" where
  "new_ReaType t n b =
     \<lparr>reascript_type = t, name = n, is_optional = b, description = None,
      is_pointer = False, cached_default_value = None\<rparr>"

text \<open>The exceptions the parser can raise. A \<open>ValueError\<close> carries its message and the
  fragments the message names.\<close>

datatype error = ValueError string "string list" | IndexError

section \<open>The type/name tokenizer\<close>

text \<open>
  \<open>LUA_KEYWORDS\<close> and \<open>REAPER_TYPES\<close> are imported from the package's \<open>__init__\<close>, which is
  not part of the sources at hand; the functions that read them take them as the
  parameters \<open>kw\<close> and \<open>rt\<close>.
\<close>

definition edit_name :: "string \<Rightarrow> string" where
  "edit_name n0 =
     (let n = replace n0 ''.'' '''';
          n = (if endswith n ''idx'' \<and> n \<noteq> ''idx'' then replace n ''idx'' ''_idx''
               else if endswith n ''name'' \<and> n \<noteq> ''name'' then replace n ''name'' ''_name''
               else if endswith n ''type'' \<and> n \<noteq> ''type'' then replace n ''type'' ''_type''
               else if endswith n ''val'' \<and> n \<noteq> ''val'' then replace n ''val'' ''_val''
               else if endswith n ''pos'' \<and> n \<noteq> ''pos'' then replace n ''pos'' ''_pos''
               else if startswith n ''is'' then replace n ''is'' ''is_''
               else if startswith n ''swing'' \<and> n \<noteq> ''swing'' then replace n ''swing'' ''swing_''
               else if startswith n ''nudge'' \<and> n \<noteq> ''nudge'' then replace n ''nudge'' ''nudge_''
               else if startswith n ''timesig'' \<and> n \<noteq> ''timesig''
                 then replace n ''timesig'' ''time_sig''
               else if n = ''guid_guid'' then ''guid''
               else n);
          n = (if startswith n ''__'' then replace n ''__'' '''' else n);
          n = (if contains n ''__'' then replace n ''__'' ''_'' else n)
      in n)"

definition sanitize_name :: "string list \<Rightarrow> string list \<Rightarrow> string option" where
  "sanitize_name kw parts =
     (if length parts > 1
      then (let n = to_snake (parts ! 1);
                n = (if n \<in> set kw then n @ ''_'' else n)
            in Some (if n \<noteq> [] then edit_name n else n))
      else None)"

definition get_type :: "string \<Rightarrow> string" where
  "get_type t = (if t = ''MediaItem_Take'' then ''MediaItemTake'' else t)"

text \<open>\<open>yield x\<close> followed by the rest of the iteration; \<open>list(...)\<close> of the generator fails
  when any step fails.\<close>

definition yield :: "'a \<Rightarrow> error + 'a list \<Rightarrow> error + 'a list" where
  "yield x rest = (case rest of Inl e \<Rightarrow> Inl e | Inr xs \<Rightarrow> Inr (x # xs))"

fun iter_types_and_names :: "string list \<Rightarrow> string list \<Rightarrow> error + ReaType list" where
  "iter_types_and_names kw [] = Inr []"
| "iter_types_and_names kw (v # vs) =
     (if v = [] then Inr []
      else (let parts = filter (\<lambda>p. p \<noteq> []) (split v CHR '' '');
                n = sanitize_name kw parts
            in case parts of
                 [] \<Rightarrow> Inl IndexError
               | p0 # _ \<Rightarrow>
                   if p0 = ''optional'' then
                     (if length parts > 2
                      then yield (new_ReaType (parts ! 2) n True) (iter_types_and_names kw vs)
                      else Inl IndexError)
                   else if length parts = 1 then
                     yield (new_ReaType (get_type p0) None False) (iter_types_and_names kw vs)
                   else
                     yield (new_ReaType (get_type p0) n False) (iter_types_and_names kw vs)))"

text \<open>\<^verbatim>\<open>re.search(r"\(([^)]*)\)", signature)\<close>; group 1 is the second item.\<close>

definition parenthesised :: "item list" where
  "parenthesised = [One (\<lambda>c. c = CHR ''(''), Many (\<lambda>c. c \<noteq> CHR '')''), One (\<lambda>c. c = CHR '')'')]"

definition get_arguments :: "string \<Rightarrow> error + string list" where
  "get_arguments sig =
     (case re_search parenthesised None sig of
        Some (gs, r) \<Rightarrow> Inr (split (gs ! 1) CHR '','')
      | None \<Rightarrow> Inl (ValueError ''Could not find arguments in'' [sig]))"

section \<open>Signature parser\<close>

text \<open>\<^verbatim>\<open>pattern = r"\w+\s*\(\s*[^)]*\s*\)"\<close>, tried on every part with \<open>re.match\<close>; the first
  part that matches is returned whole.\<close>

definition signature_pattern :: "item list" where
  "signature_pattern =
     [Many1 is_word, Many is_space, One (\<lambda>c. c = CHR ''(''), Many is_space,
      Many (\<lambda>c. c \<noteq> CHR '')''), Many is_space, One (\<lambda>c. c = CHR '')'')]"

fun first_signature :: "string list \<Rightarrow> string option" where
  "first_signature [] = None"
| "first_signature (part # parts) =
     (case re_match signature_pattern part of
        Some _ \<Rightarrow> Some part
      | None \<Rightarrow> first_signature parts)"

definition get_function_signature :: "string list \<Rightarrow> error + string" where
  "get_function_signature parts =
     (case first_signature parts of
        Some part \<Rightarrow> Inr part
      | None \<Rightarrow> Inl (ValueError ''Could not find function signature in'' parts))"

text \<open>\<^verbatim>\<open>pattern = r"\b\w+(?=\s*\()"\<close> with \<open>re.search\<close>; \<open>match.group(0)\<close> is the text of the
  items together (the boundary and the lookahead consume nothing).\<close>

definition name_pattern :: "item list" where
  "name_pattern = [Boundary, Many1 is_word, Ahead [Many is_space, One (\<lambda>c. c = CHR ''('')]]"

definition get_function_name :: "string \<Rightarrow> error + string" where
  "get_function_name sig =
     (case re_search name_pattern None sig of
        Some (gs, r) \<Rightarrow> Inr (concat gs)
      | None \<Rightarrow> Inl (ValueError ''Could not find function name in'' [sig]))"

text \<open>Tokens before an underscore that are no namespaces.\<close>

definition FALSE_POSITIVE_NAMESPACES :: "string list" where
  "FALSE_POSITIVE_NAMESPACES =
     [''GetEnvelopeInfo'', ''GetMediaItem'', ''GetMediaItemInfo'', ''GetMediaItemTake'',
      ''GetMediaItemTakeInfo'', ''GetMediaTrackInfo'', ''GetSet'',
      ''GetSetAutomationItemInfo'', ''GetSetEnvelopeInfo'', ''GetSetMediaItemInfo'',
      ''GetSetMediaItemTakeInfo'', ''GetSetMediaTrackInfo'', ''GetSetProjectInfo'',
      ''GetSetTrackSendInfo'', ''GetTrackSendInfo'', ''SetMediaItemInfo'',
      ''SetMediaItemTake'', ''SetMediaItemTakeInfo'', ''SetMediaTrackInfo'',
      ''SetTrackSendInfo'', ''file'', ''format'', ''get'', ''image'', ''kbd'', ''my'',
      ''parse'', ''reduce'', ''relative'', ''resolve'', ''time'']"

definition get_fn_name_space :: "string list \<Rightarrow> string option" where
  "get_fn_name_space fn_name_space_parts =
     (case fn_name_space_parts of
        p0 # _ # _ \<Rightarrow> if p0 \<noteq> [] \<and> p0 \<notin> set FALSE_POSITIVE_NAMESPACES then Some p0 else None
      | _ \<Rightarrow> None)"

text \<open>\<open>parse_return_values\<close> returns \<open>None\<close> for an empty clause.\<close>

definition parse_return_values :: "string list \<Rightarrow> string option \<Rightarrow> error + ReaType list option" where
  "parse_return_values kw values =
     (case values of
        None \<Rightarrow> Inr None
      | Some v \<Rightarrow>
          if v = [] then Inr None
          else (case iter_types_and_names kw
                       (map (\<lambda>part. strip (replace part ''='' '''')) (split v CHR '','')) of
                  Inl e \<Rightarrow> Inl e
                | Inr ts \<Rightarrow> Inr (Some ts)))"

text \<open>
  \<open>parse_lua_function\<close> returns the fields it has parsed as a dict; here they are a
  \<open>ReaFunc\<close> whose \<open>docs\<close> and \<open>constants\<close> are still \<open>None\<close>. An exception of any step ends
  the function: the steps run in the order of the source.
\<close>

definition parse_lua_function :: "string list \<Rightarrow> string \<Rightarrow> error + ReaFunc" where
  "parse_lua_function kw text =
     (let parts = split_once text ''reaper.'' in
      case parse_return_values kw
             (case parts of [] \<Rightarrow> None | p0 # _ \<Rightarrow> if p0 \<noteq> [] then Some p0 else None) of
        Inl e \<Rightarrow> Inl e
      | Inr rv \<Rightarrow>
      (case get_function_signature parts of
        Inl e \<Rightarrow> Inl e
      | Inr sig \<Rightarrow>
      (case get_arguments sig of
        Inl e \<Rightarrow> Inl e
      | Inr pieces \<Rightarrow>
      (case iter_types_and_names kw pieces of
        Inl e \<Rightarrow> Inl e
      | Inr args \<Rightarrow>
      (case get_function_name sig of
        Inl e \<Rightarrow> Inl e
      | Inr n \<Rightarrow>
          (let t = get_fn_name_space (split_once n ''_'');
               t = (if t = Some ''TimeMap2'' then Some ''TimeMap''
                    else if t = Some ''midi'' then Some ''MIDI''
                    else t)
           in Inr \<lparr>signature = sig, reascript_name = n, fn_name_space = t,
                    arguments = args,
                    return_values = (case rv of None \<Rightarrow> [] | Some ts \<Rightarrow> ts),
                    docs = None, reawrap_name = None, constants = None\<rparr>))))))"

text \<open>
  An entry of the document: the text of its \<open>l_func\<close> element and its documentation
  paragraph, if any. The HTML tree is not modelled: the text of a paragraph and
  \<open>parse_constants_from_docs\<close>, which walks its children, are the parameters \<open>p_text\<close> and
  \<open>parse_constants\<close>.
\<close>

record 'p entry =
  l_func :: string
  docs_element :: "'p option"

text \<open>The first loop of \<open>iter_lua_functions\<close>: nothing catches what
  \<open>parse_lua_function\<close> raises.\<close>

fun api_functions ::
    "string list \<Rightarrow> ('p \<Rightarrow> string) \<Rightarrow> ('p \<Rightarrow> string \<times> ReaType list) \<Rightarrow> 'p entry list \<Rightarrow>
     error + ReaFunc list" where
  "api_functions kw p_text parse_constants [] = Inr []"
| "api_functions kw p_text parse_constants (func # funcs) =
     (case parse_lua_function kw (l_func func) of
        Inl e \<Rightarrow> Inl e
      | Inr lua_func \<Rightarrow>
          (let docstr = map_option (\<lambda>d. replace (p_text d) [CHR 0xA0] '''') (docs_element func);
               found = (case docs_element func of
                          Some d \<Rightarrow>
                            if contains (reascript_name lua_func) ''Info''
                            then Some (parse_constants d) else None
                        | None \<Rightarrow> None)
           in yield (case found of
                       None \<Rightarrow> lua_func\<lparr>docs := docstr, constants := None\<rparr>
                     | Some (d, cs) \<Rightarrow> lua_func\<lparr>docs := Some d, constants := Some cs\<rparr>)
                (api_functions kw p_text parse_constants funcs)))"

text \<open>The second loop: a \<open>ValueError\<close> is logged and the entry skipped; any other
  exception leaves the loop.\<close>

fun built_in_functions ::
    "string list \<Rightarrow> ('p \<Rightarrow> string) \<Rightarrow> 'p entry list \<Rightarrow> error + ReaFunc list" where
  "built_in_functions kw p_text [] = Inr []"
| "built_in_functions kw p_text (func # funcs) =
     (case parse_lua_function kw (l_func func) of
        Inl (ValueError m fragments) \<Rightarrow> built_in_functions kw p_text funcs
      | Inl IndexError \<Rightarrow> Inl IndexError
      | Inr lua_func \<Rightarrow>
          yield (lua_func\<lparr>fn_name_space := Some ''built_in'',
                   docs := map_option p_text (docs_element func)\<rparr>)
            (built_in_functions kw p_text funcs))"

text \<open>\<open>list(iter_lua_functions(soup, built_in))\<close>, on the entries of the section
  \<open>functions_all\<close> and those of the section of the built-in functions.\<close>

definition iter_lua_functions ::
    "string list \<Rightarrow> ('p \<Rightarrow> string) \<Rightarrow> ('p \<Rightarrow> string \<times> ReaType list) \<Rightarrow>
     'p entry list \<Rightarrow> 'p entry list \<Rightarrow> bool \<Rightarrow> error + ReaFunc list" where
  "iter_lua_functions kw p_text parse_constants functions_all lua built_in =
     (case api_functions kw p_text parse_constants functions_all of
        Inl e \<Rightarrow> Inl e
      | Inr fs \<Rightarrow>
          if built_in
          then (case built_in_functions kw p_text lua of
                  Inl e \<Rightarrow> Inl e
                | Inr bs \<Rightarrow> Inr (fs @ bs))
          else Inr fs)"

section \<open>Derived properties of a type descriptor\<close>

definition is_reaper_type :: "string list \<Rightarrow> ReaType \<Rightarrow> bool" where
  "is_reaper_type rt t = (reascript_type t \<in> set rt)"

definition lua_type :: "string list \<Rightarrow> ReaType \<Rightarrow> string" where
  "lua_type rt t =
     (if is_reaper_type rt t then ''userdata''
      else if reascript_type t \<in> set [''integer'', ''double'', ''float''] then ''number''
      else if reascript_type t = ''boolean'' then ''boolean''
      else if reascript_type t \<in> set [''string'', ''str''] then ''string''
      else reascript_type t)"

text \<open>The literal \<^verbatim>\<open>'""'\<close>: two double quotes.\<close>

definition empty_string_literal :: string where
  "empty_string_literal = [CHR 0x22, CHR 0x22]"

text \<open>
  The property \<open>default_value\<close> writes the cache when it is empty, so reading it returns
  the value together with the descriptor as the read leaves it. The setter overwrites
  the cache.
\<close>

definition default_value :: "ReaType \<Rightarrow> string \<times> ReaType" where
  "default_value t =
     (case cached_default_value t of
        None \<Rightarrow>
          (let v = (if reascript_type t = ''boolean'' then ''false''
                    else if reascript_type t = ''number'' then ''0''
                    else if reascript_type t = ''string'' then empty_string_literal
                    else ''nil'')
           in (v, t\<lparr>cached_default_value := Some v\<rparr>))
      | Some v \<Rightarrow> (v, t))"

definition set_default_value :: "ReaType \<Rightarrow> string \<Rightarrow> ReaType" where
  "set_default_value t v = t\<lparr>cached_default_value := Some v\<rparr>"

section \<open>Dictionaries\<close>

text \<open>
  A Python dict keeps its keys in insertion order: it is an association list, and
  \<open>d[k] = v\<close> is \<open>AList.update k v d\<close>, which overwrites in place or appends a new key.
  \<open>dict_append\<close> is \<open>if k not in d: d[k] = []\<close> followed by \<open>d[k].append(x)\<close>.
\<close>

type_synonym ('k, 'v) dict = "('k \<times> 'v) list"

definition dict_append :: "('k, 'v list) dict \<Rightarrow> 'k \<Rightarrow> 'v \<Rightarrow> ('k, 'v list) dict" where
  "dict_append d k x =
     (case map_of d k of
        None \<Rightarrow> AList.update k [x] d
      | Some l \<Rightarrow> AList.update k (l @ [x]) d)"

definition dict_setdefault :: "('k, 'v) dict \<Rightarrow> 'k \<Rightarrow> 'v \<Rightarrow> ('k, 'v) dict" where
  "dict_setdefault d k v = (case map_of d k of None \<Rightarrow> AList.update k v d | Some _ \<Rightarrow> d)"

section \<open>Namespace classifier\<close>

definition REAPER_NAMESPACES :: "string list" where
  "REAPER_NAMESPACES =
     [''Audio'', ''Dock'', ''Help'', ''Loop'', ''Main'', ''Master'', ''Menu'', ''Resample'',
      ''Splash'', ''ThemeLayout'', ''TimeMap'', ''Undo'']"

definition track_fx_exceptions :: "string list" where
  "track_fx_exceptions = [''TrackFX_Delete'', ''TrackFX_GetCount'']"

definition take_fx_exceptions :: "string list" where
  "take_fx_exceptions = [''TakeFX_Delete'', ''TakeFX_GetCount'']"

text \<open>The type of the first argument, when there is one
  (\<open>l_func.arguments and l_func.arguments[0].reascript_type in ...\<close>).\<close>

definition first_argument_in :: "ReaFunc \<Rightarrow> string list \<Rightarrow> bool" where
  "first_argument_in f ts =
     (case arguments f of [] \<Rightarrow> False | a # _ \<Rightarrow> reascript_type a \<in> set ts)"

text \<open>The priority chain in the body of the loop of \<open>group_functions_by_name_space\<close>:
  the namespace one function is filed under.\<close>

definition namespace_of :: "string list \<Rightarrow> ReaFunc \<Rightarrow> string" where
  "namespace_of rt f =
     (if (fn_name_space f = Some ''TrackFX'' \<or> contains (reascript_name f) ''TrackFX'')
           \<and> reascript_name f \<notin> set track_fx_exceptions
      then ''TrackFX''
      else if (fn_name_space f = Some ''TakeFX'' \<or> contains (reascript_name f) ''TakeFX'')
           \<and> reascript_name f \<notin> set take_fx_exceptions
      then ''TakeFX''
      else if fn_name_space f = Some ''PCM'' \<or> first_argument_in f [''PCM_source'', ''PCM_sink'']
      then ''PCM''
      else if first_argument_in f rt
      then (case arguments f of [] \<Rightarrow> [] | a # _ \<Rightarrow> reascript_type a)
      else (case fn_name_space f of
              None \<Rightarrow> ''Reaper''
            | Some t \<Rightarrow> if t \<in> set REAPER_NAMESPACES then ''Reaper'' else t))"

definition group_functions_by_name_space ::
    "string list \<Rightarrow> ReaFunc list \<Rightarrow> (string, ReaFunc list) dict" where
  "group_functions_by_name_space rt functions =
     fold (\<lambda>l_func by_name_space. dict_append by_name_space (namespace_of rt l_func) l_func)
       functions []"

section \<open>Name transformer\<close>

definition ns_special_cases :: "string list" where
  "ns_special_cases = [''MIDI'', ''Undo'', ''Audio'', ''Menu'', ''Splash'', ''ThemeLayout'']"

definition functions_special_cases :: "(string, (string, string) dict) dict" where
  "functions_special_cases =
     [(''TakeFX'', [(''get_fxguid'', ''get_guid''), (''get_fx_name'', ''get_name''),
                    (''get_count'', ''get_fx_count'')]),
      (''TrackFX'', [(''get_fxguid'', ''get_guid''), (''get_fx_name'', ''get_name''),
                     (''get_count'', ''get_fx_count'')]),
      (''MediaItemTake'', [(''get_count'', ''get_fx_count''), (''delete'', ''delete_fx'')]),
      (''MediaTrack'', [(''get_count'', ''get_fx_count''), (''delete'', ''delete_fx'')]),
      (''MediaItem'', [(''add_take_to'', ''add_take'')]),
      (''ReaProject'', [(''get_project_name'', ''get_name'')])]"

text \<open>The condition and the two replacements that strip the namespace prefixes;
  \<open>fn_name_space\<close> as a condition holds when it is neither \<open>None\<close> nor the empty string.\<close>

definition strip_prefixes :: "string \<Rightarrow> string option \<Rightarrow> string \<Rightarrow> string" where
  "strip_prefixes namespace fns rname =
     (if ((case fns of None \<Rightarrow> False | Some t \<Rightarrow> t \<noteq> [] \<and> contains rname t)
            \<or> contains rname namespace)
          \<and> (case fns of None \<Rightarrow> True | Some t \<Rightarrow> t \<notin> set ns_special_cases)
      then replace (case fns of
                      None \<Rightarrow> rname
                    | Some t \<Rightarrow> if t \<noteq> [] then replace rname t '''' else rname)
             namespace ''''
      else rname)"

definition generate_reawrap_name ::
    "string list \<Rightarrow> string \<Rightarrow> string option \<Rightarrow> string \<Rightarrow> string" where
  "generate_reawrap_name kw namespace fns rname0 =
     (let rname = (if contains rname0 ''TimeMap2'' then replace rname0 ''TimeMap2'' ''TimeMap''
                   else rname0);
          n = strip_prefixes namespace fns rname;
          n = (if startswith n ''__'' then drop 2 n
               else if startswith n ''_'' then drop 1 n
               else n);
          n = to_snake n;
          n = (if n \<in> set kw then n @ ''_'' else n)
      in case map_of functions_special_cases namespace of
           None \<Rightarrow> n
         | Some renames \<Rightarrow> (case map_of renames n of None \<Rightarrow> n | Some n' \<Rightarrow> n'))"

section \<open>Refinement and deduplication\<close>

text \<open>
  Records are values here: assigning \<open>func.reawrap_name\<close> gives the updated record, which is
  the one appended. (The pipeline builds every record once, so no record is shared
  between two places of a table.)
\<close>

definition refine_function ::
    "string list \<Rightarrow> string \<Rightarrow> ReaFunc \<Rightarrow>
     (string, ReaFunc list) dict \<times> (string, string set) dict \<Rightarrow>
     (string, ReaFunc list) dict \<times> (string, string set) dict" where
  "refine_function kw name_space func st =
     (let refined = fst st; seen_funcs = snd st;
          rn = generate_reawrap_name kw name_space (fn_name_space func) (reascript_name func);
          func' = func\<lparr>reawrap_name := Some rn\<rparr>;
          seen = (case map_of seen_funcs name_space of None \<Rightarrow> {} | Some s \<Rightarrow> s)
      in if rn \<notin> seen
         then (dict_append refined name_space func',
               AList.update name_space (insert rn seen) seen_funcs)
         else (refined, seen_funcs))"

definition refine_name_space ::
    "string list \<Rightarrow> string \<times> ReaFunc list \<Rightarrow>
     (string, ReaFunc list) dict \<times> (string, string set) dict \<Rightarrow>
     (string, ReaFunc list) dict \<times> (string, string set) dict" where
  "refine_name_space kw item st =
     fold (refine_function kw (fst item)) (snd item)
       (dict_setdefault (fst st) (fst item) [], dict_setdefault (snd st) (fst item) {})"

text \<open>\<open>sorted(by_name_space.items(), key=lambda item: item[0].lower())\<close>: Python's sort is
  stable, as \<open>sort_key\<close> is; strings compare by code point, lexicographically.\<close>

definition refine_functions ::
    "string list \<Rightarrow> (string, ReaFunc list) dict \<Rightarrow> (string, ReaFunc list) dict" where
  "refine_functions kw by_name_space =
     fst (fold (refine_name_space kw) (sort_key (\<lambda>item. lower (fst item)) by_name_space)
            ([], []))"

text \<open>\<open>func.docs and word in func.docs.lower()\<close>.\<close>

definition docs_mention :: "ReaFunc \<Rightarrow> string \<Rightarrow> bool" where
  "docs_mention func word =
     (case docs func of None \<Rightarrow> False | Some d \<Rightarrow> d \<noteq> [] \<and> contains (lower d) word)"

definition want_master :: "ReaType list \<Rightarrow> ReaType list" where
  "want_master args =
     map (\<lambda>arg. if name arg = Some ''wantmaster''
                then arg\<lparr>name := Some ''want_master'', is_optional := True\<rparr>
                else arg) args"

text \<open>The chain of curated overrides of \<open>dedupe_functions\<close>: \<open>None\<close> where the source
  says \<open>continue\<close>, otherwise the record as the chain leaves it.\<close>

definition curated_override :: "string \<Rightarrow> ReaFunc \<Rightarrow> ReaFunc option" where
  "curated_override name_space func =
     (if reawrap_name func = Some ''count_selected_tracks'' \<and> name_space = ''ReaProject''
      then None
      else if reawrap_name func = Some ''count_selected_tracks2'' \<and> name_space = ''ReaProject''
      then Some (func\<lparr>arguments := want_master (arguments func),
                       reawrap_name := Some ''count_selected_tracks''\<rparr>)
      else if reawrap_name func = Some ''add_project_marker'' \<and> name_space = ''ReaProject''
      then None
      else if reawrap_name func = Some ''add_project_marker2'' \<and> name_space = ''ReaProject''
      then Some (func\<lparr>reawrap_name := Some ''add_project_marker''\<rparr>)
      else if reawrap_name func = Some ''enum_project_markers2'' \<and> name_space = ''ReaProject''
      then None
      else if reawrap_name func = Some ''enum_project_markers3'' \<and> name_space = ''ReaProject''
      then Some (func\<lparr>reawrap_name := Some ''enum_project_markers''\<rparr>)
      else if reawrap_name func = Some ''get_play_position_ex'' \<and> name_space = ''ReaProject''
      then Some (func\<lparr>reawrap_name := Some ''get_play_position_lat_comp''\<rparr>)
      else if reawrap_name func = Some ''get_play_position2_ex'' \<and> name_space = ''ReaProject''
      then Some (func\<lparr>reawrap_name := Some ''get_play_position''\<rparr>)
      else if reawrap_name func = Some ''get_project_time_signature2''
              \<and> name_space = ''ReaProject''
      then Some (func\<lparr>reawrap_name := Some ''get_project_time_signature''\<rparr>)
      else if reawrap_name func = Some ''get_selected_track'' \<and> name_space = ''ReaProject''
      then None
      else if reawrap_name func = Some ''get_selected_track2'' \<and> name_space = ''ReaProject''
      then Some (func\<lparr>arguments := want_master (arguments func),
                       reawrap_name := Some ''get_selected_track''\<rparr>)
      else Some func)"

text \<open>One turn of the inner loop, on the set \<open>seen\<close> and the list \<open>deduped[name_space]\<close>.\<close>

definition dedupe_function ::
    "string \<Rightarrow> ReaFunc \<Rightarrow> string option set \<times> ReaFunc list \<Rightarrow>
     string option set \<times> ReaFunc list" where
  "dedupe_function name_space func st =
     (if docs_mention func ''deprecated'' then st
      else if docs_mention func ''discouraged'' then st
      else (case curated_override name_space func of
              None \<Rightarrow> st
            | Some func' \<Rightarrow>
                if reawrap_name func' \<notin> fst st
                then (insert (reawrap_name func') (fst st), snd st @ [func'])
                else st))"

definition dedupe_name_space :: "string \<Rightarrow> ReaFunc list \<Rightarrow> ReaFunc list" where
  "dedupe_name_space name_space functions =
     snd (fold (dedupe_function name_space) functions ({}, []))"

definition dedupe_functions ::
    "(string, ReaFunc list) dict \<Rightarrow> (string, ReaFunc list) dict" where
  "dedupe_functions refined =
     fold (\<lambda>item deduped.
             AList.update (fst item) (dedupe_name_space (fst item) (snd item)) deduped)
       refined []"

section \<open>The patterns, read as shapes of strings\<close>

text \<open>
  \<open>matches\<close> says that the matcher finds a match at the head of a string, and
  \<open>prev_after\<close> is the character before the position reached after reading \<open>us\<close>.
  \<open>signature_shaped\<close> and \<open>called_name_in\<close> say in words of strings what the two patterns
  of the signature parser look for: a part that begins with a name, optional whitespace
  and a parenthesised argument list; and a signature that holds a name which starts at a
  word boundary and is followed, after optional whitespace, by an opening parenthesis.
\<close>

definition prev_after :: "char option \<Rightarrow> string \<Rightarrow> char option" where
  "prev_after prev us = (if us = [] then prev else Some (last us))"

definition matches :: "item list \<Rightarrow> char option \<Rightarrow> string \<Rightarrow> bool" where
  "matches its prev s \<longleftrightarrow> re_items its prev s \<noteq> None"

definition signature_shaped :: "string \<Rightarrow> bool" where
  "signature_shaped s \<longleftrightarrow>
     (\<exists>nm ws body rest. s = nm @ ws @ ''('' @ body @ '')'' @ rest \<and> nm \<noteq> [] \<and>
        list_all is_word nm \<and> list_all is_space ws \<and> CHR '')'' \<notin> set body)"

definition called_name_in :: "string \<Rightarrow> bool" where
  "called_name_in s \<longleftrightarrow>
     (\<exists>pre nm ws post. s = pre @ nm @ ws @ ''('' @ post \<and> nm \<noteq> [] \<and>
        list_all is_word nm \<and> list_all is_space ws \<and> \<not> word_before (prev_after None pre))"

text \<open>
  \<open>name_directly_before_paren\<close> is the stricter reading, with no whitespace between the
  name and the parenthesis; a string that has it holds a word character right before an
  opening parenthesis, which \<open>word_then_paren\<close> looks for.
\<close>

definition name_directly_before_paren :: "string \<Rightarrow> bool" where
  "name_directly_before_paren s \<longleftrightarrow>
     (\<exists>pre nm post. s = pre @ nm @ ''('' @ post \<and> nm \<noteq> [] \<and>
        list_all is_word nm \<and> \<not> word_before (prev_after None pre))"

fun word_then_paren :: "string \<Rightarrow> bool" where
  "word_then_paren (c # d # rest) = ((is_word c \<and> d = CHR ''('') \<or> word_then_paren (d # rest))"
| "word_then_paren _ = False"

section \<open>Reading a table, and the invariant of the refinement loop\<close>

text \<open>\<open>d.get(k, [])\<close>: the records filed under a key.\<close>

definition filed_under :: "('k, 'v list) dict \<Rightarrow> 'k \<Rightarrow> 'v list" where
  "filed_under d k = (case map_of d k of None \<Rightarrow> [] | Some l \<Rightarrow> l)"

definition seen_in :: "(string, string set) dict \<Rightarrow> string \<Rightarrow> string set" where
  "seen_in seen_funcs ns = (case map_of seen_funcs ns of None \<Rightarrow> {} | Some s \<Rightarrow> s)"

text \<open>What the loops of \<open>refine_functions\<close> maintain on \<open>refined\<close> and \<open>seen_funcs\<close>: the keys
  are distinct, and the target names of every list are distinct and recorded as seen.\<close>

definition refine_inv ::
    "(string, ReaFunc list) dict \<times> (string, string set) dict \<Rightarrow> bool" where
  "refine_inv st \<longleftrightarrow>
     distinct (map fst (fst st)) \<and>
     (\<forall>ns fs. map_of (fst st) ns = Some fs \<longrightarrow>
        distinct (map reawrap_name fs) \<and>
        (\<forall>f \<in> set fs. \<exists>n. reawrap_name f = Some n \<and> n \<in> seen_in (snd st) ns))"

section \<open>Sample inputs\<close>

text \<open>The reserved words of Lua, a value \<open>LUA_KEYWORDS\<close> can take, and some of the handle
  types, a value \<open>REAPER_TYPES\<close> can take.\<close>

definition lua_reserved_words :: "string list" where
  "lua_reserved_words =
     [''and'', ''break'', ''do'', ''else'', ''elseif'', ''end'', ''false'', ''for'',
      ''function'', ''goto'', ''if'', ''in'', ''local'', ''nil'', ''not'', ''or'', ''repeat'',
      ''return'', ''then'', ''true'', ''until'', ''while'']"

definition handle_types :: "string list" where
  "handle_types = [''ReaProject'', ''MediaTrack'', ''MediaItem'', ''MediaItemTake'', ''TrackEnvelope'']"

definition sample_func ::
    "string \<Rightarrow> string option \<Rightarrow> ReaType list \<Rightarrow> string \<Rightarrow> string option \<Rightarrow> ReaFunc" where
  "sample_func n t args d rn =
     \<lparr>signature = n, reascript_name = n, fn_name_space = t, arguments = args,
      return_values = [], docs = Some d, reawrap_name = rn, constants = None\<rparr>"

definition track_fx_get_count :: ReaFunc where
  "track_fx_get_count =
     sample_func ''TrackFX_GetCount'' (Some ''TrackFX'')
       [new_ReaType ''MediaTrack'' (Some ''track'') False]
       ''Returns the number of FX on the track.'' None"

definition get_project_name :: ReaFunc where
  "get_project_name =
     sample_func ''GetProjectName'' None [new_ReaType ''ReaProject'' (Some ''proj'') False]
       ''Returns the name of the project.'' None"

definition count_tracks :: ReaFunc where
  "count_tracks =
     sample_func ''CountTracks'' None [new_ReaType ''ReaProject'' (Some ''proj'') False]
       ''Counts the tracks of the project.'' None"

definition get_track_old :: ReaFunc where
  "get_track_old =
     sample_func ''CSurf_TrackFromID'' (Some ''CSurf'') [new_ReaType ''integer'' (Some ''idx'') False]
       ''DEPRECATED, use GetTrack.'' (Some ''track_from_id'')"

definition get_track :: ReaFunc where
  "get_track =
     sample_func ''CSurf_TrackToID'' (Some ''CSurf'') [new_ReaType ''integer'' (Some ''idx'') False]
       ''Returns the track.'' (Some ''track_to_id'')"

definition enum_project_markers2 :: ReaFunc where
  "enum_project_markers2 =
     sample_func ''EnumProjectMarkers2'' None
       [new_ReaType ''ReaProject'' (Some ''proj'') False, new_ReaType ''integer'' (Some ''idx'') False]
       ''Enumerates the markers and regions of the project.'' (Some ''enum_project_markers2'')"

definition enum_project_markers3 :: ReaFunc where
  "enum_project_markers3 =
     sample_func ''EnumProjectMarkers3'' None
       [new_ReaType ''ReaProject'' (Some ''proj'') False, new_ReaType ''integer'' (Some ''idx'') False]
       ''Enumerates the markers and regions of the project, with colors.''
       (Some ''enum_project_markers3'')"

text \<open>The state of the inner loop of \<open>dedupe_functions\<close> with respect to the name
  \<open>enum_project_markers\<close>: \<open>b\<close> tells whether the renamed record \<open>f3\<close> has been appended.\<close>

definition enum_state :: "ReaFunc \<Rightarrow> bool \<Rightarrow> string option set \<times> ReaFunc list \<Rightarrow> bool" where
  "enum_state f3 b st \<longleftrightarrow>
     (Some ''enum_project_markers'' \<in> fst st \<longleftrightarrow> b) \<and>
     filter (\<lambda>f. reawrap_name f = Some ''enum_project_markers'') (snd st)
       = (if b then [f3\<lparr>reawrap_name := Some ''enum_project_markers''\<rparr>] else [])"

text \<open>Two entries of the section of API functions; the first has no argument list.\<close>

definition defer_entry :: "string entry" where
  "defer_entry = \<lparr>l_func = ''reaper.defer'', docs_element = None\<rparr>"

definition count_tracks_entry :: "string entry" where
  "count_tracks_entry =
     \<lparr>l_func = ''integer reaper.CountTracks(ReaProject proj)'',
      docs_element = Some ''Counts the tracks of the project.''\<rparr>"

text \<open>What \<open>parse_lua_function\<close> returns on the second entry.\<close>

definition count_tracks_parsed :: ReaFunc where
  "count_tracks_parsed =
     \<lparr>signature = ''CountTracks(ReaProject proj)'', reascript_name = ''CountTracks'',
      fn_name_space = None, arguments = [new_ReaType ''ReaProject'' (Some ''proj'') False],
      return_values = [new_ReaType ''integer'' None False], docs = None,
      reawrap_name = None, constants = None\<rparr>"

section \<open>Properties of snake-casing\<close>

lemma not_upper_lower_char: "\<not> is_upper (lower_char c)"
  by (simp add: lower_char_def is_upper_def ascii_uppercase_def ascii_lowercase_def
        latin1_uppercase_def latin1_lowercase_def)

lemma lower_char_idem: "lower_char (lower_char c) = lower_char c"
  by (simp add: lower_char_def ascii_uppercase_def ascii_lowercase_def
        latin1_uppercase_def latin1_lowercase_def)

lemma lower_no_upper: "\<forall>c \<in> set (lower s). \<not> is_upper c"
  by (simp add: lower_def not_upper_lower_char)

lemma lower_idem: "lower (lower s) = lower s"
  by (simp add: lower_def lower_char_idem)

lemma caps_then_word_no_match:
  "s = [] \<or> \<not> is_upper (hd s) \<Longrightarrow> re_items caps_then_word prev s = None"
  by (cases s) (auto simp: caps_then_word_def)

lemma lower_then_cap_no_match:
  "\<forall>c \<in> set s. \<not> is_upper c \<Longrightarrow> re_items lower_then_cap prev s = None"
proof (cases s)
  case Nil
  then show ?thesis by (simp add: lower_then_cap_def)
next
  case (Cons a t)
  assume h: "\<forall>c \<in> set s. \<not> is_upper c"
  show ?thesis
  proof (cases t)
    case Nil
    with Cons show ?thesis by (simp add: lower_then_cap_def)
  next
    case (Cons b u)
    with \<open>s = a # t\<close> h show ?thesis by (simp add: lower_then_cap_def)
  qed
qed

lemma re_sub_caps_then_word_id:
  "\<forall>c \<in> set s. \<not> is_upper c \<Longrightarrow> re_sub caps_then_word repl prev s = s"
proof (induction s arbitrary: prev)
  case Nil
  then show ?case by simp
next
  case (Cons c cs)
  then have "re_items caps_then_word prev (c # cs) = None"
    by (intro caps_then_word_no_match) simp
  with Cons show ?case by simp
qed

lemma re_sub_lower_then_cap_id:
  "\<forall>c \<in> set s. \<not> is_upper c \<Longrightarrow> re_sub lower_then_cap repl prev s = s"
proof (induction s arbitrary: prev)
  case Nil
  then show ?case by simp
next
  case (Cons c cs)
  then have "re_items lower_then_cap prev (c # cs) = None"
    by (intro lower_then_cap_no_match) simp
  with Cons show ?case by simp
qed

lemma to_snake_no_upper: "\<forall>c \<in> set (to_snake s). \<not> is_upper c"
  unfolding to_snake_def by (rule lower_no_upper)

lemma to_snake_again: "\<forall>c \<in> set s. \<not> is_upper c \<Longrightarrow> to_snake s = lower s"
  by (simp add: to_snake_def re_sub_caps_then_word_id re_sub_lower_then_cap_id)

lemma lower_to_snake: "lower (to_snake s) = to_snake s"
  by (simp add: to_snake_def lower_idem)

text \<open>
  Claim C7. Snake-casing is idempotent: for every string \<open>s\<close>, casing the result of
  \<open>to_snake s\<close> again returns it unchanged.
\<close>

theorem to_snake_idempotent: "to_snake (to_snake s) = to_snake s"
  by (simp add: to_snake_again [OF to_snake_no_upper] lower_to_snake)

section \<open>The tokenizer on optional and empty pieces\<close>

lemma to_snake_boolean: "to_snake ''boolean'' = ''boolean''"
  by code_simp

lemma edit_name_boolean:
  "edit_name ''boolean'' = ''boolean''" "edit_name ''boolean_'' = ''boolean_''"
  by code_simp+

lemma split_optional:
  "filter (\<lambda>p. p \<noteq> []) (split ''optional boolean wantmaster'' CHR '' '')
     = [''optional'', ''boolean'', ''wantmaster'']"
  by code_simp

text \<open>
  Claim C1. The raw argument \<open>optional boolean wantmaster\<close> should give one descriptor of
  type \<open>boolean\<close> named \<open>wantmaster\<close> and marked optional. The tokenizer does give one
  descriptor marked optional, but it reads the name from the token after \<open>optional\<close> and
  the type from the token after that: the type is \<open>wantmaster\<close> and the name \<open>boolean\<close>
  (with an underscore appended when \<open>boolean\<close> is among the keywords).
\<close>

theorem iter_types_and_names_optional_example:
  "iter_types_and_names kw [''optional boolean wantmaster''] =
     Inr [new_ReaType ''wantmaster''
            (Some (if ''boolean'' \<in> set kw then ''boolean_'' else ''boolean'')) True]"
  by (simp add: split_optional sanitize_name_def to_snake_boolean edit_name_boolean yield_def
      del: split.simps)

lemma iter_types_and_names_cut:
  "iter_types_and_names kw (xs @ [] # ys) = iter_types_and_names kw xs"
  by (induction xs) (simp_all add: Let_def split: list.splits)

lemma get_arguments_empty_parentheses: "get_arguments ''name()'' = Inr ['''']"
  by code_simp

text \<open>
  Claim C10. An empty piece ends the iteration: the pieces before it give what they give
  alone, and neither the empty piece nor any piece after it gives a descriptor. For the
  signature \<open>name()\<close>, \<open>get_arguments\<close> returns the list holding the empty string, which
  parses to the empty argument list and raises nothing.
\<close>

theorem iter_types_and_names_empty_piece:
  "iter_types_and_names kw (xs @ '''' # ys) = iter_types_and_names kw xs
   \<and> get_arguments ''name()'' = Inr ['''']
   \<and> iter_types_and_names kw [''''] = Inr []"
  using iter_types_and_names_cut [of kw xs ys] get_arguments_empty_parentheses by simp

section \<open>The default value of a type descriptor\<close>

text \<open>
  Claim C5, as stated, ties the default literal to the runtime type \<open>lua_type\<close>. The
  source type \<open>integer\<close> has the runtime type \<open>number\<close>, yet its default is not \<open>0\<close>.
\<close>

theorem default_value_integer_counterexample:
  "lua_type handle_types (new_ReaType ''integer'' None False) = ''number''
   \<and> cached_default_value (new_ReaType ''integer'' None False) = None
   \<and> fst (default_value (new_ReaType ''integer'' None False)) \<noteq> ''0''"
  by (simp add: lua_type_def is_reaper_type_def default_value_def new_ReaType_def Let_def
        handle_types_def)

text \<open>
  Claim C5, amended. For a descriptor whose default has not been set, reading
  \<open>default_value\<close> returns the literal chosen by the source type name \<open>reascript_type\<close>:
  \<open>false\<close> for \<open>boolean\<close>, \<open>0\<close> for \<open>number\<close>, the empty-string literal for \<open>string\<close> and
  \<open>nil\<close> for anything else. The value is cached: a second read returns the same string
  and leaves the descriptor as it is, also after the source type has changed, until the
  setter overwrites it.
\<close>

theorem default_value_by_source_type:
  assumes "cached_default_value t = None"
  shows "fst (default_value t) =
           (if reascript_type t = ''boolean'' then ''false''
            else if reascript_type t = ''number'' then ''0''
            else if reascript_type t = ''string'' then empty_string_literal
            else ''nil'')
    \<and> default_value (snd (default_value t)) = (fst (default_value t), snd (default_value t))
    \<and> fst (default_value ((snd (default_value t))\<lparr>reascript_type := ty\<rparr>))
        = fst (default_value t)
    \<and> fst (default_value (set_default_value (snd (default_value t)) v)) = v"
  using assms by (simp add: default_value_def set_default_value_def Let_def)

theorem default_value_by_source_type_witness:
  "cached_default_value (new_ReaType ''boolean'' (Some ''wantmaster'') False) = None
   \<and> fst (default_value (new_ReaType ''boolean'' (Some ''wantmaster'') False)) = ''false''
   \<and> fst (default_value (snd (default_value
             (new_ReaType ''boolean'' (Some ''wantmaster'') False)))) = ''false''
   \<and> fst (default_value (set_default_value (snd (default_value
             (new_ReaType ''boolean'' (Some ''wantmaster'') False))) ''true'')) = ''true''"
proof -
  have h: "cached_default_value (new_ReaType ''boolean'' (Some ''wantmaster'') False) = None"
    by (simp add: new_ReaType_def)
  show ?thesis
    using default_value_by_source_type [OF h, of "''number''" "''true''"] h
    by (simp add: new_ReaType_def)
qed

section \<open>The classification and the name of \<open>TrackFX_GetCount\<close>\<close>

lemma strip_track_fx_get_count:
  "strip_prefixes ''MediaTrack'' (Some ''TrackFX'') ''TrackFX_GetCount'' = ''_GetCount''"
  by code_simp

lemma to_snake_get_count: "to_snake ''GetCount'' = ''get_count''"
  by code_simp

lemma generate_track_fx_get_count:
  "''get_count'' \<notin> set kw \<Longrightarrow>
   generate_reawrap_name kw ''MediaTrack'' (Some ''TrackFX'') ''TrackFX_GetCount''
     = ''get_fx_count''"
  by (simp add: generate_reawrap_name_def strip_track_fx_get_count to_snake_get_count
        startswith_def functions_special_cases_def)

lemma namespace_of_track_fx_get_count:
  assumes "''MediaTrack'' \<in> set rt" "reascript_name f = ''TrackFX_GetCount''"
    "fn_name_space f = Some ''TrackFX''" "arguments f = a # as"
    "reascript_type a = ''MediaTrack''"
  shows "namespace_of rt f = ''MediaTrack''"
  using assms
  by (simp add: namespace_of_def track_fx_exceptions_def take_fx_exceptions_def
        first_argument_in_def startswith_def)

text \<open>
  Claim C3. With \<open>MediaTrack\<close> among the handle types, a record named \<open>TrackFX_GetCount\<close>
  with namespace token \<open>TrackFX\<close> and a first argument of type \<open>MediaTrack\<close> is in the
  exception list of the first rule, is filed under \<open>MediaTrack\<close> by
  \<open>group_functions_by_name_space\<close>, gets the target name \<open>get_fx_count\<close>, and, its
  documentation being neither deprecated nor discouraged, is the one record of the final
  table. (\<open>LUA_KEYWORDS\<close> is a parameter: the name \<open>get_count\<close> is assumed not to be among
  the keywords.)
\<close>

theorem track_fx_get_count_example:
  assumes "''MediaTrack'' \<in> set rt" and "''get_count'' \<notin> set kw"
    and "reascript_name f = ''TrackFX_GetCount''" and "fn_name_space f = Some ''TrackFX''"
    and "arguments f = a # as" and "reascript_type a = ''MediaTrack''"
    and "\<not> docs_mention f ''deprecated''" and "\<not> docs_mention f ''discouraged''"
  shows "reascript_name f \<in> set track_fx_exceptions
    \<and> namespace_of rt f = ''MediaTrack''
    \<and> group_functions_by_name_space rt [f] = [(''MediaTrack'', [f])]
    \<and> generate_reawrap_name kw ''MediaTrack'' (fn_name_space f) (reascript_name f)
        = ''get_fx_count''
    \<and> dedupe_functions (refine_functions kw (group_functions_by_name_space rt [f]))
        = [(''MediaTrack'', [f\<lparr>reawrap_name := Some ''get_fx_count''\<rparr>])]"
proof -
  have ns: "namespace_of rt f = ''MediaTrack''"
    using assms by (intro namespace_of_track_fx_get_count)
  have gen: "generate_reawrap_name kw ''MediaTrack'' (fn_name_space f) (reascript_name f)
               = ''get_fx_count''"
    using assms by (simp add: generate_track_fx_get_count)
  have grp: "group_functions_by_name_space rt [f] = [(''MediaTrack'', [f])]"
    by (simp add: group_functions_by_name_space_def dict_append_def ns)
  have ref: "refine_functions kw [(''MediaTrack'', [f])]
               = [(''MediaTrack'', [f\<lparr>reawrap_name := Some ''get_fx_count''\<rparr>])]"
    by (simp add: refine_functions_def refine_name_space_def refine_function_def
          dict_setdefault_def dict_append_def gen Let_def)
  have ded: "dedupe_functions [(''MediaTrack'', [f\<lparr>reawrap_name := Some ''get_fx_count''\<rparr>])]
               = [(''MediaTrack'', [f\<lparr>reawrap_name := Some ''get_fx_count''\<rparr>])]"
    using assms(7,8)
    by (simp add: dedupe_functions_def dedupe_name_space_def dedupe_function_def
          curated_override_def docs_mention_def)
  show ?thesis
    using ns gen grp ref ded assms(3) by (simp add: track_fx_exceptions_def)
qed

lemma track_fx_get_count_docs:
  "\<not> docs_mention track_fx_get_count ''deprecated''"
  "\<not> docs_mention track_fx_get_count ''discouraged''"
  by code_simp+

theorem track_fx_get_count_example_witness:
  "''MediaTrack'' \<in> set handle_types
   \<and> ''get_count'' \<notin> set lua_reserved_words
   \<and> \<not> docs_mention track_fx_get_count ''deprecated''
   \<and> \<not> docs_mention track_fx_get_count ''discouraged''
   \<and> namespace_of handle_types track_fx_get_count = ''MediaTrack''
   \<and> generate_reawrap_name lua_reserved_words ''MediaTrack''
        (fn_name_space track_fx_get_count) (reascript_name track_fx_get_count)
       = ''get_fx_count''
   \<and> dedupe_functions (refine_functions lua_reserved_words
        (group_functions_by_name_space handle_types [track_fx_get_count]))
       = [(''MediaTrack'', [track_fx_get_count\<lparr>reawrap_name := Some ''get_fx_count''\<rparr>])]"
proof -
  have kw: "''get_count'' \<notin> set lua_reserved_words"
    by (simp add: lua_reserved_words_def)
  have rt: "''MediaTrack'' \<in> set handle_types"
    by (simp add: handle_types_def)
  have n: "reascript_name track_fx_get_count = ''TrackFX_GetCount''"
    and t: "fn_name_space track_fx_get_count = Some ''TrackFX''"
    and a: "arguments track_fx_get_count = [new_ReaType ''MediaTrack'' (Some ''track'') False]"
    and ty: "reascript_type (new_ReaType ''MediaTrack'' (Some ''track'') False) = ''MediaTrack''"
    by (simp_all add: track_fx_get_count_def sample_func_def new_ReaType_def)
  show ?thesis
    using track_fx_get_count_example [OF rt kw n t a ty track_fx_get_count_docs]
      track_fx_get_count_docs kw rt
    by (elim conjE, intro conjI) assumption+
qed

section \<open>Grouping does not depend on the order of the input\<close>

lemma distinct_dict_append: "distinct (map fst d) \<Longrightarrow> distinct (map fst (dict_append d k x))"
  by (simp add: dict_append_def distinct_update split: option.splits)

lemma map_of_dict_append:
  "map_of (dict_append d k x) =
     (map_of d)(k \<mapsto> (case map_of d k of None \<Rightarrow> [x] | Some l \<Rightarrow> l @ [x]))"
  by (simp add: dict_append_def update_conv' split: option.splits)

lemma filed_under_dict_append:
  "filed_under (dict_append d k x) k' =
     (if k' = k then filed_under d k @ [x] else filed_under d k')"
  by (simp add: filed_under_def map_of_dict_append split: option.splits)

lemma filed_under_fold:
  "filed_under (fold (\<lambda>f d. dict_append d (g f) f) fs d) k =
     filed_under d k @ filter (\<lambda>f. g f = k) fs"
  by (induction fs arbitrary: d) (simp_all add: filed_under_dict_append)

lemma keys_dict_append: "fst ` set (dict_append d k x) = insert k (fst ` set d)"
  by (simp add: dict_append_def dom_update split: option.splits)

lemma keys_fold:
  "fst ` set (fold (\<lambda>f d. dict_append d (g f) f) fs d) = fst ` set d \<union> g ` set fs"
  by (induction fs arbitrary: d) (auto simp: keys_dict_append)

lemma distinct_fold:
  "distinct (map fst d) \<Longrightarrow> distinct (map fst (fold (\<lambda>f d. dict_append d (g f) f) fs d))"
  by (induction fs arbitrary: d) (simp_all add: distinct_dict_append)

lemma filed_under_group:
  "filed_under (group_functions_by_name_space rt fs) ns =
     filter (\<lambda>f. namespace_of rt f = ns) fs"
  by (simp add: group_functions_by_name_space_def filed_under_fold) (simp add: filed_under_def)

lemma keys_group:
  "fst ` set (group_functions_by_name_space rt fs) = namespace_of rt ` set fs"
  by (simp add: group_functions_by_name_space_def keys_fold)

lemma distinct_group: "distinct (map fst (group_functions_by_name_space rt fs))"
  by (simp add: group_functions_by_name_space_def distinct_fold)

text \<open>
  Claim C6. The namespace of a record depends on the record alone. For a list \<open>fs\<close> and a
  permutation \<open>fs'\<close> of it, the records filed under a namespace are, in both runs, those
  records of the input whose own namespace it is, in the order of the input; so the two
  lists under a key hold the same records, in an order that may differ, and the two
  tables have the same keys.
\<close>

theorem group_functions_by_name_space_order_independent:
  assumes "mset fs' = mset fs"
  shows "filed_under (group_functions_by_name_space rt fs) ns
           = filter (\<lambda>f. namespace_of rt f = ns) fs
    \<and> filed_under (group_functions_by_name_space rt fs') ns
           = filter (\<lambda>f. namespace_of rt f = ns) fs'
    \<and> mset (filed_under (group_functions_by_name_space rt fs') ns)
           = mset (filed_under (group_functions_by_name_space rt fs) ns)
    \<and> (f \<in> set (filed_under (group_functions_by_name_space rt fs') ns)
         \<longleftrightarrow> f \<in> set fs \<and> namespace_of rt f = ns)
    \<and> (f \<in> set (filed_under (group_functions_by_name_space rt fs) ns)
         \<longleftrightarrow> f \<in> set fs \<and> namespace_of rt f = ns)
    \<and> fst ` set (group_functions_by_name_space rt fs')
           = fst ` set (group_functions_by_name_space rt fs)
    \<and> distinct (map fst (group_functions_by_name_space rt fs))"
proof -
  have s: "set fs' = set fs"
    using assms by (rule mset_eq_setD)
  have m: "mset (filter (\<lambda>f. namespace_of rt f = ns) fs')
             = mset (filter (\<lambda>f. namespace_of rt f = ns) fs)"
    using assms by (simp only: mset_filter)
  show ?thesis
    using s m by (simp add: filed_under_group keys_group distinct_group)
qed

lemma group_sample:
  "filed_under (group_functions_by_name_space handle_types
      [track_fx_get_count, get_project_name, count_tracks]) ''ReaProject''
     = [get_project_name, count_tracks]"
  "filed_under (group_functions_by_name_space handle_types
      [count_tracks, track_fx_get_count, get_project_name]) ''ReaProject''
     = [count_tracks, get_project_name]"
  by code_simp+

theorem group_functions_by_name_space_order_independent_witness:
  "mset [count_tracks, track_fx_get_count, get_project_name]
     = mset [track_fx_get_count, get_project_name, count_tracks]
   \<and> mset (filed_under (group_functions_by_name_space handle_types
              [count_tracks, track_fx_get_count, get_project_name]) ''ReaProject'')
     = mset (filed_under (group_functions_by_name_space handle_types
              [track_fx_get_count, get_project_name, count_tracks]) ''ReaProject'')
   \<and> filed_under (group_functions_by_name_space handle_types
        [track_fx_get_count, get_project_name, count_tracks]) ''ReaProject''
     = [get_project_name, count_tracks]
   \<and> filed_under (group_functions_by_name_space handle_types
        [count_tracks, track_fx_get_count, get_project_name]) ''ReaProject''
     = [count_tracks, get_project_name]"
proof -
  have h: "mset [count_tracks, track_fx_get_count, get_project_name]
             = mset [track_fx_get_count, get_project_name, count_tracks]"
    by simp
  have "mset (filed_under (group_functions_by_name_space handle_types
              [count_tracks, track_fx_get_count, get_project_name]) ''ReaProject'')
     = mset (filed_under (group_functions_by_name_space handle_types
              [track_fx_get_count, get_project_name, count_tracks]) ''ReaProject'')"
    using group_functions_by_name_space_order_independent
      [OF h, of handle_types "''ReaProject''" count_tracks]
    by (elim conjE)
  with h group_sample show ?thesis
    by (intro conjI)
qed

section \<open>Target names are unique within a namespace\<close>

lemma set_update_cases:
  "(a, b) \<in> set (AList.update k v d) \<Longrightarrow> (a, b) = (k, v) \<or> (a, b) \<in> set d"
  by (induction d) (auto split: if_splits)

lemma dedupe_functions_entries_aux:
  "(ns, l) \<in> set (fold (\<lambda>item deduped.
        AList.update (fst item) (dedupe_name_space (fst item) (snd item)) deduped) items d)
   \<Longrightarrow> (ns, l) \<in> set d \<or> (\<exists>fs. (ns, fs) \<in> set items \<and> l = dedupe_name_space ns fs)"
proof (induction items arbitrary: d)
  case Nil
  then show ?case by simp
next
  case (Cons item items)
  from Cons.prems have "(ns, l) \<in> set (fold (\<lambda>item deduped.
        AList.update (fst item) (dedupe_name_space (fst item) (snd item)) deduped) items
        (AList.update (fst item) (dedupe_name_space (fst item) (snd item)) d))"
    by simp
  from Cons.IH [OF this] show ?case
  proof
    assume "(ns, l) \<in> set (AList.update (fst item) (dedupe_name_space (fst item) (snd item)) d)"
    from set_update_cases [OF this] show ?thesis
      by (cases item) auto
  next
    assume "\<exists>fs. (ns, fs) \<in> set items \<and> l = dedupe_name_space ns fs"
    then show ?thesis by auto
  qed
qed

lemma dedupe_functions_entries:
  "(ns, l) \<in> set (dedupe_functions refined)
   \<Longrightarrow> \<exists>fs. (ns, fs) \<in> set refined \<and> l = dedupe_name_space ns fs"
  unfolding dedupe_functions_def by (drule dedupe_functions_entries_aux) simp

lemma dedupe_function_distinct:
  assumes "distinct (map reawrap_name (snd st))" "reawrap_name ` set (snd st) \<subseteq> fst st"
  shows "distinct (map reawrap_name (snd (dedupe_function ns func st)))
    \<and> reawrap_name ` set (snd (dedupe_function ns func st)) \<subseteq> fst (dedupe_function ns func st)"
  using assms by (auto simp: dedupe_function_def split: option.splits)

lemma dedupe_fold_distinct:
  "distinct (map reawrap_name (snd st)) \<Longrightarrow> reawrap_name ` set (snd st) \<subseteq> fst st \<Longrightarrow>
   distinct (map reawrap_name (snd (fold (dedupe_function ns) fs st)))"
proof (induction fs arbitrary: st)
  case Nil
  then show ?case by simp
next
  case (Cons func fs)
  from dedupe_function_distinct [OF Cons.prems, of ns func] Cons.IH show ?case
    by simp
qed

lemma dedupe_name_space_distinct: "distinct (map reawrap_name (dedupe_name_space ns fs))"
  unfolding dedupe_name_space_def by (rule dedupe_fold_distinct) simp_all

lemma refine_inv_empty: "refine_inv ([], [])"
  by (simp add: refine_inv_def)

lemma seen_in_update:
  "seen_in (AList.update k s d) ns = (if ns = k then s else seen_in d ns)"
  by (simp add: seen_in_def update_conv')

lemma refine_function_inv:
  assumes "refine_inv st"
  shows "refine_inv (refine_function kw ns func st)"
proof (cases "generate_reawrap_name kw ns (fn_name_space func) (reascript_name func)
                \<in> seen_in (snd st) ns")
  case True
  with assms show ?thesis
    by (simp add: refine_function_def seen_in_def Let_def)
next
  case False
  define rn where "rn = generate_reawrap_name kw ns (fn_name_space func) (reascript_name func)"
  define func' where "func' = func\<lparr>reawrap_name := Some rn\<rparr>"
  define old where "old = (case map_of (fst st) ns of None \<Rightarrow> [] | Some l \<Rightarrow> l)"
  have new: "refine_function kw ns func st =
      (dict_append (fst st) ns func', AList.update ns (insert rn (seen_in (snd st) ns)) (snd st))"
    using False by (simp add: refine_function_def Let_def seen_in_def rn_def func'_def)
  have fresh: "rn \<notin> seen_in (snd st) ns"
    using False by (simp add: rn_def)
  have old_ok: "distinct (map reawrap_name old)
      \<and> (\<forall>f \<in> set old. \<exists>n. reawrap_name f = Some n \<and> n \<in> seen_in (snd st) ns)"
    using assms by (auto simp: old_def refine_inv_def split: option.splits)
  have app: "map_of (dict_append (fst st) ns func') = (map_of (fst st))(ns \<mapsto> old @ [func'])"
    by (simp add: map_of_dict_append old_def split: option.splits)
  have keys: "distinct (map fst (dict_append (fst st) ns func'))"
    using assms by (simp add: refine_inv_def distinct_dict_append)
  have entries: "distinct (map reawrap_name fs) \<and>
      (\<forall>f \<in> set fs. \<exists>n. reawrap_name f = Some n \<and>
         n \<in> seen_in (AList.update ns (insert rn (seen_in (snd st) ns)) (snd st)) k)"
    if "map_of (dict_append (fst st) ns func') k = Some fs" for k fs
  proof (cases "k = ns")
    case True
    with that have fs: "fs = old @ [func']"
      by (simp add: app)
    have "Some rn \<notin> reawrap_name ` set old"
      using old_ok fresh by force
    then show ?thesis
      using old_ok True by (auto simp: fs func'_def seen_in_update)
  next
    case False
    with that have "map_of (fst st) k = Some fs"
      by (simp add: app)
    with assms False show ?thesis
      by (simp add: refine_inv_def seen_in_update)
  qed
  show ?thesis
    unfolding new refine_inv_def using keys entries by simp
qed

lemma refine_fold_inv: "refine_inv st \<Longrightarrow> refine_inv (fold (refine_function kw ns) fs st)"
  by (induction fs arbitrary: st) (simp_all add: refine_function_inv)

lemma seen_in_setdefault: "seen_in (dict_setdefault d k {}) ns = seen_in d ns"
  by (simp add: dict_setdefault_def seen_in_def update_conv' split: option.splits)

lemma map_of_setdefault:
  "map_of (dict_setdefault d k v) = (case map_of d k of None \<Rightarrow> (map_of d)(k \<mapsto> v) | Some _ \<Rightarrow> map_of d)"
  by (simp add: dict_setdefault_def update_conv' split: option.splits)

lemma distinct_setdefault: "distinct (map fst d) \<Longrightarrow> distinct (map fst (dict_setdefault d k v))"
  by (simp add: dict_setdefault_def distinct_update split: option.splits)

lemma dict_setdefault_inv:
  assumes "refine_inv st"
  shows "refine_inv (dict_setdefault (fst st) ns [], dict_setdefault (snd st) ns {})"
proof -
  have "distinct (map reawrap_name fs) \<and>
      (\<forall>f \<in> set fs. \<exists>n. reawrap_name f = Some n \<and> n \<in> seen_in (snd st) k)"
    if "map_of (dict_setdefault (fst st) ns []) k = Some fs" for k fs
  proof (cases "map_of (fst st) k = Some fs")
    case True
    with assms show ?thesis by (simp add: refine_inv_def)
  next
    case False
    with that have "fs = []"
      by (auto simp: map_of_setdefault split: option.splits if_splits)
    then show ?thesis by simp
  qed
  then show ?thesis
    using assms by (simp add: refine_inv_def seen_in_setdefault distinct_setdefault)
qed

lemma refine_name_space_inv: "refine_inv st \<Longrightarrow> refine_inv (refine_name_space kw item st)"
  unfolding refine_name_space_def by (intro refine_fold_inv dict_setdefault_inv)

lemma refine_all_inv: "refine_inv st \<Longrightarrow> refine_inv (fold (refine_name_space kw) items st)"
  by (induction items arbitrary: st) (simp_all add: refine_name_space_inv)

lemma refine_functions_distinct:
  assumes "(ns, fs) \<in> set (refine_functions kw by_name_space)"
  shows "distinct (map reawrap_name fs)"
proof -
  let ?st = "fold (refine_name_space kw) (sort_key (\<lambda>item. lower (fst item)) by_name_space)
               ([], [])"
  have inv: "refine_inv ?st"
    by (intro refine_all_inv refine_inv_empty)
  then have "distinct (map fst (fst ?st))"
    by (simp add: refine_inv_def)
  with assms have "map_of (fst ?st) ns = Some fs"
    by (simp add: refine_functions_def)
  with inv show ?thesis
    unfolding refine_inv_def by blast
qed

text \<open>
  Claim C2. In the table \<open>dedupe_functions\<close> returns, no two records of a namespace share
  a target name; the same holds of every list \<open>refine_functions\<close> produces.
\<close>

theorem target_names_unique:
  "((ns, fs) \<in> set (dedupe_functions refined) \<longrightarrow> distinct (map reawrap_name fs))
   \<and> ((ns, fs) \<in> set (refine_functions kw by_name_space) \<longrightarrow> distinct (map reawrap_name fs))"
  using dedupe_functions_entries [of ns fs refined] dedupe_name_space_distinct
    refine_functions_distinct [of ns fs kw by_name_space]
  by auto

lemma dedupe_sample:
  "dedupe_functions
     [(''ReaProject'', [get_project_name\<lparr>reawrap_name := Some ''get_name''\<rparr>,
                        count_tracks\<lparr>reawrap_name := Some ''get_name''\<rparr>])]
     = [(''ReaProject'', [get_project_name\<lparr>reawrap_name := Some ''get_name''\<rparr>])]"
  by code_simp

lemma refine_sample:
  "refine_functions lua_reserved_words
     [(''ReaProject'', [get_project_name, get_project_name\<lparr>docs := None\<rparr>, count_tracks])]
     = [(''ReaProject'', [get_project_name\<lparr>reawrap_name := Some ''get_name''\<rparr>,
                          count_tracks\<lparr>reawrap_name := Some ''count_tracks''\<rparr>])]"
  by code_simp

theorem target_names_unique_witness:
  "(''ReaProject'', [get_project_name\<lparr>reawrap_name := Some ''get_name''\<rparr>])
     \<in> set (dedupe_functions
          [(''ReaProject'', [get_project_name\<lparr>reawrap_name := Some ''get_name''\<rparr>,
                             count_tracks\<lparr>reawrap_name := Some ''get_name''\<rparr>])])
   \<and> distinct (map reawrap_name [get_project_name\<lparr>reawrap_name := Some ''get_name''\<rparr>])
   \<and> (''ReaProject'', [get_project_name\<lparr>reawrap_name := Some ''get_name''\<rparr>,
                         count_tracks\<lparr>reawrap_name := Some ''count_tracks''\<rparr>])
     \<in> set (refine_functions lua_reserved_words
          [(''ReaProject'',
            [get_project_name, get_project_name\<lparr>docs := None\<rparr>, count_tracks])])
   \<and> distinct (map reawrap_name [get_project_name\<lparr>reawrap_name := Some ''get_name''\<rparr>,
                         count_tracks\<lparr>reawrap_name := Some ''count_tracks''\<rparr>])"
proof -
  have m1: "(''ReaProject'', [get_project_name\<lparr>reawrap_name := Some ''get_name''\<rparr>])
     \<in> set (dedupe_functions
          [(''ReaProject'', [get_project_name\<lparr>reawrap_name := Some ''get_name''\<rparr>,
                             count_tracks\<lparr>reawrap_name := Some ''get_name''\<rparr>])])"
    by (simp only: dedupe_sample) simp
  have m2: "(''ReaProject'', [get_project_name\<lparr>reawrap_name := Some ''get_name''\<rparr>,
                         count_tracks\<lparr>reawrap_name := Some ''count_tracks''\<rparr>])
     \<in> set (refine_functions lua_reserved_words
          [(''ReaProject'',
            [get_project_name, get_project_name\<lparr>docs := None\<rparr>, count_tracks])])"
    by (simp only: refine_sample) simp
  from m1 have d1:
    "distinct (map reawrap_name [get_project_name\<lparr>reawrap_name := Some ''get_name''\<rparr>])"
    using target_names_unique
      [where ns = "''ReaProject''"
         and fs = "[get_project_name\<lparr>reawrap_name := Some ''get_name''\<rparr>]"
         and refined = "[(''ReaProject'',
             [get_project_name\<lparr>reawrap_name := Some ''get_name''\<rparr>,
              count_tracks\<lparr>reawrap_name := Some ''get_name''\<rparr>])]"]
    by blast
  from m2 have d2:
    "distinct (map reawrap_name [get_project_name\<lparr>reawrap_name := Some ''get_name''\<rparr>,
                         count_tracks\<lparr>reawrap_name := Some ''count_tracks''\<rparr>])"
    using target_names_unique
      [where ns = "''ReaProject''"
         and fs = "[get_project_name\<lparr>reawrap_name := Some ''get_name''\<rparr>,
                    count_tracks\<lparr>reawrap_name := Some ''count_tracks''\<rparr>]"
         and kw = lua_reserved_words
         and by_name_space = "[(''ReaProject'',
            [get_project_name, get_project_name\<lparr>docs := None\<rparr>, count_tracks])]"]
    by blast
  from m1 d1 m2 d2 show ?thesis
    by (intro conjI)
qed

section \<open>Deprecated and discouraged functions are dropped\<close>

lemma curated_override_docs: "curated_override ns func = Some func' \<Longrightarrow> docs func' = docs func"
  by (auto simp: curated_override_def split: if_splits)

lemma docs_mention_cong: "docs f = docs g \<Longrightarrow> docs_mention f w = docs_mention g w"
  by (simp add: docs_mention_def)

lemma dedupe_function_unmarked:
  assumes "\<forall>f \<in> set (snd st). \<not> docs_mention f ''deprecated'' \<and> \<not> docs_mention f ''discouraged''"
  shows "\<forall>f \<in> set (snd (dedupe_function ns func st)).
           \<not> docs_mention f ''deprecated'' \<and> \<not> docs_mention f ''discouraged''"
  using assms
  by (auto simp: dedupe_function_def docs_mention_cong [OF curated_override_docs]
        split: option.splits)

lemma dedupe_fold_unmarked:
  "\<forall>f \<in> set (snd st). \<not> docs_mention f ''deprecated'' \<and> \<not> docs_mention f ''discouraged'' \<Longrightarrow>
   \<forall>f \<in> set (snd (fold (dedupe_function ns) fs st)).
     \<not> docs_mention f ''deprecated'' \<and> \<not> docs_mention f ''discouraged''"
proof (induction fs arbitrary: st)
  case Nil
  then show ?case by simp
next
  case (Cons func fs)
  from Cons.IH [OF dedupe_function_unmarked [OF Cons.prems, of ns func]] show ?case
    by simp
qed

lemma dedupe_name_space_unmarked:
  "f \<in> set (dedupe_name_space ns fs) \<Longrightarrow>
   \<not> docs_mention f ''deprecated'' \<and> \<not> docs_mention f ''discouraged''"
  using dedupe_fold_unmarked [of "({}, [])" ns fs] by (simp add: dedupe_name_space_def)

text \<open>
  Claim C4. A record whose documentation contains \<open>deprecated\<close> or \<open>discouraged\<close>, in any
  letter case, is in no list of the table \<open>dedupe_functions\<close> returns, and no record of that
  table carries its documentation.
\<close>

theorem deprecated_never_retained:
  assumes "(ns, fs) \<in> set (dedupe_functions refined)"
    and "docs_mention r ''deprecated'' \<or> docs_mention r ''discouraged''"
  shows "r \<notin> set fs \<and> (\<forall>f \<in> set fs. docs f \<noteq> docs r)"
proof -
  from dedupe_functions_entries [OF assms(1)] obtain fs0
    where l: "fs = dedupe_name_space ns fs0" by blast
  have "\<forall>f \<in> set fs. \<not> docs_mention f ''deprecated'' \<and> \<not> docs_mention f ''discouraged''"
    unfolding l using dedupe_name_space_unmarked by blast
  with assms(2) show ?thesis
    using docs_mention_cong by blast
qed

lemma deprecated_sample:
  "docs_mention get_track_old ''deprecated''"
  "dedupe_functions [(''CSurf'', [get_track_old, get_track])] = [(''CSurf'', [get_track])]"
  by code_simp+

theorem deprecated_never_retained_witness:
  "(''CSurf'', [get_track]) \<in> set (dedupe_functions [(''CSurf'', [get_track_old, get_track])])
   \<and> (docs_mention get_track_old ''deprecated'' \<or> docs_mention get_track_old ''discouraged'')
   \<and> get_track_old \<notin> set [get_track]"
proof -
  have m: "(''CSurf'', [get_track])
             \<in> set (dedupe_functions [(''CSurf'', [get_track_old, get_track])])"
    by (simp only: deprecated_sample) simp
  have d: "docs_mention get_track_old ''deprecated'' \<or> docs_mention get_track_old ''discouraged''"
    by (simp add: deprecated_sample)
  from deprecated_never_retained [OF m d] have "get_track_old \<notin> set [get_track]"
    by (elim conjE)
  with m d show ?thesis
    by (intro conjI)
qed

section \<open>The curated override of the marker enumeration\<close>

lemma curated_override_enum3:
  "reawrap_name f = Some ''enum_project_markers3'' \<Longrightarrow>
   curated_override ''ReaProject'' f = Some (f\<lparr>reawrap_name := Some ''enum_project_markers''\<rparr>)"
  by (simp add: curated_override_def)

lemma curated_override_gives_enum:
  assumes "curated_override ''ReaProject'' g = Some g'"
    and "reawrap_name g' = Some ''enum_project_markers''"
  shows "reawrap_name g = Some ''enum_project_markers''
       \<or> reawrap_name g = Some ''enum_project_markers3''"
  using assms by (auto simp: curated_override_def split: if_splits)

lemma curated_override_no_enum23:
  assumes "curated_override ''ReaProject'' g = Some g'"
  shows "reawrap_name g' \<noteq> Some ''enum_project_markers2''
       \<and> reawrap_name g' \<noteq> Some ''enum_project_markers3''"
  using assms by (auto simp: curated_override_def split: if_splits)

lemma dedupe_function_enum:
  assumes st: "enum_state f3 b st"
    and f3: "reawrap_name f3 = Some ''enum_project_markers3''"
      "\<not> docs_mention f3 ''deprecated''" "\<not> docs_mention f3 ''discouraged''"
    and g: "reawrap_name g = Some ''enum_project_markers''
              \<or> reawrap_name g = Some ''enum_project_markers3'' \<longrightarrow> g = f3"
  shows "enum_state f3 (b \<or> g = f3) (dedupe_function ''ReaProject'' g st)"
proof (cases "g = f3")
  case True
  have step: "dedupe_function ''ReaProject'' f3 st =
      (if Some ''enum_project_markers'' \<in> fst st then st
       else (insert (Some ''enum_project_markers'') (fst st),
             snd st @ [f3\<lparr>reawrap_name := Some ''enum_project_markers''\<rparr>]))"
    using f3 by (simp add: dedupe_function_def curated_override_enum3)
  show ?thesis
    using st unfolding True step enum_state_def by auto
next
  case False
  with g have other: "reawrap_name g \<noteq> Some ''enum_project_markers''"
      "reawrap_name g \<noteq> Some ''enum_project_markers3''"
    by auto
  have keep: "reawrap_name g' \<noteq> Some ''enum_project_markers''"
    if "curated_override ''ReaProject'' g = Some g'" for g'
    using curated_override_gives_enum [OF that] other by blast
  show ?thesis
    using st False keep unfolding enum_state_def dedupe_function_def
    by (auto split: option.splits)
qed

lemma dedupe_fold_enum:
  assumes f3: "reawrap_name f3 = Some ''enum_project_markers3''"
      "\<not> docs_mention f3 ''deprecated''" "\<not> docs_mention f3 ''discouraged''"
  shows "enum_state f3 b st \<Longrightarrow>
    \<forall>g \<in> set fs. reawrap_name g = Some ''enum_project_markers''
              \<or> reawrap_name g = Some ''enum_project_markers3'' \<longrightarrow> g = f3 \<Longrightarrow>
    enum_state f3 (b \<or> f3 \<in> set fs) (fold (dedupe_function ''ReaProject'') fs st)"
proof (induction fs arbitrary: b st)
  case Nil
  then show ?case by simp
next
  case (Cons g fs)
  have "enum_state f3 (b \<or> g = f3) (dedupe_function ''ReaProject'' g st)"
    using Cons.prems by (intro dedupe_function_enum f3) simp_all
  from Cons.IH [OF this] Cons.prems(2)
  have "enum_state f3 ((b \<or> g = f3) \<or> f3 \<in> set fs)
          (fold (dedupe_function ''ReaProject'') fs (dedupe_function ''ReaProject'' g st))"
    by simp
  moreover have "((b \<or> g = f3) \<or> f3 \<in> set fs) = (b \<or> f3 \<in> set (g # fs))"
    by auto
  ultimately show ?case by simp
qed

lemma dedupe_function_no_enum23:
  assumes "\<forall>f \<in> set (snd st). reawrap_name f \<noteq> Some ''enum_project_markers2''
             \<and> reawrap_name f \<noteq> Some ''enum_project_markers3''"
  shows "\<forall>f \<in> set (snd (dedupe_function ''ReaProject'' g st)).
           reawrap_name f \<noteq> Some ''enum_project_markers2''
             \<and> reawrap_name f \<noteq> Some ''enum_project_markers3''"
  using assms curated_override_no_enum23 [of g]
  by (auto simp: dedupe_function_def split: option.splits)

lemma dedupe_fold_no_enum23:
  "\<forall>f \<in> set (snd st). reawrap_name f \<noteq> Some ''enum_project_markers2''
             \<and> reawrap_name f \<noteq> Some ''enum_project_markers3'' \<Longrightarrow>
   \<forall>f \<in> set (snd (fold (dedupe_function ''ReaProject'') fs st)).
           reawrap_name f \<noteq> Some ''enum_project_markers2''
             \<and> reawrap_name f \<noteq> Some ''enum_project_markers3''"
proof (induction fs arbitrary: st)
  case Nil
  then show ?case by simp
next
  case (Cons g fs)
  from Cons.IH [OF dedupe_function_no_enum23 [OF Cons.prems, of g]] show ?case
    by simp
qed

lemma map_of_dedupe_fold:
  "distinct (map fst items) \<Longrightarrow>
   map_of (fold (\<lambda>item deduped.
        AList.update (fst item) (dedupe_name_space (fst item) (snd item)) deduped) items d) k
     = (case map_of items k of
          Some fs \<Rightarrow> Some (dedupe_name_space k fs)
        | None \<Rightarrow> map_of d k)"
proof (induction items arbitrary: d)
  case Nil
  then show ?case by simp
next
  case (Cons item items)
  obtain k0 fs0 where item: "item = (k0, fs0)" by (cases item)
  from Cons.prems have "map_of items k0 = None"
    by (simp add: item map_of_eq_None_iff)
  with Cons show ?case
    by (simp add: item update_conv' split: option.splits)
qed

lemma map_of_dedupe_functions:
  assumes "distinct (map fst refined)" "(ns, fs) \<in> set refined"
  shows "map_of (dedupe_functions refined) ns = Some (dedupe_name_space ns fs)"
  using assms by (simp add: dedupe_functions_def map_of_dedupe_fold)

text \<open>
  Claim C9. Let the list of namespace \<open>ReaProject\<close> hold a record named
  \<open>enum_project_markers2\<close> and a record \<open>f3\<close> named \<open>enum_project_markers3\<close>, neither
  deprecated nor discouraged, and no other record that would come out as
  \<open>enum_project_markers\<close>. Then \<open>dedupe_functions\<close> drops the first, and the one record of
  the result named \<open>enum_project_markers\<close> is \<open>f3\<close> renamed; no record keeps the name
  \<open>enum_project_markers2\<close> or \<open>enum_project_markers3\<close>.
\<close>

theorem enum_project_markers_override:
  assumes "distinct (map fst refined)" and "(''ReaProject'', fs) \<in> set refined"
    and "f2 \<in> set fs" and "reawrap_name f2 = Some ''enum_project_markers2''"
    and "f3 \<in> set fs" and "reawrap_name f3 = Some ''enum_project_markers3''"
    and "\<not> docs_mention f2 ''deprecated''" and "\<not> docs_mention f2 ''discouraged''"
    and "\<not> docs_mention f3 ''deprecated''" and "\<not> docs_mention f3 ''discouraged''"
    and "\<forall>g \<in> set fs. reawrap_name g = Some ''enum_project_markers''
              \<or> reawrap_name g = Some ''enum_project_markers3'' \<longrightarrow> g = f3"
  shows "map_of (dedupe_functions refined) ''ReaProject''
           = Some (dedupe_name_space ''ReaProject'' fs)
    \<and> filter (\<lambda>f. reawrap_name f = Some ''enum_project_markers'')
         (dedupe_name_space ''ReaProject'' fs)
        = [f3\<lparr>reawrap_name := Some ''enum_project_markers''\<rparr>]
    \<and> (\<forall>f \<in> set (dedupe_name_space ''ReaProject'' fs).
          reawrap_name f \<noteq> Some ''enum_project_markers2''
          \<and> reawrap_name f \<noteq> Some ''enum_project_markers3'')
    \<and> f2 \<notin> set (dedupe_name_space ''ReaProject'' fs)"
proof -
  have start: "enum_state f3 False ({}, [])"
    by (simp add: enum_state_def)
  from dedupe_fold_enum [OF assms(6,9,10) start assms(11)] assms(5)
  have one: "filter (\<lambda>f. reawrap_name f = Some ''enum_project_markers'')
         (dedupe_name_space ''ReaProject'' fs)
        = [f3\<lparr>reawrap_name := Some ''enum_project_markers''\<rparr>]"
    by (simp add: enum_state_def dedupe_name_space_def)
  have none: "\<forall>f \<in> set (dedupe_name_space ''ReaProject'' fs).
          reawrap_name f \<noteq> Some ''enum_project_markers2''
          \<and> reawrap_name f \<noteq> Some ''enum_project_markers3''"
    unfolding dedupe_name_space_def by (rule dedupe_fold_no_enum23) simp
  with assms(4) have gone: "f2 \<notin> set (dedupe_name_space ''ReaProject'' fs)"
    by blast
  from map_of_dedupe_functions [OF assms(1,2)] one none gone show ?thesis
    by (intro conjI)
qed

lemma enum_sample:
  "dedupe_name_space ''ReaProject''
      [count_tracks\<lparr>reawrap_name := Some ''count_tracks''\<rparr>, enum_project_markers2,
       enum_project_markers3]
     = [count_tracks\<lparr>reawrap_name := Some ''count_tracks''\<rparr>,
        enum_project_markers3\<lparr>reawrap_name := Some ''enum_project_markers''\<rparr>]"
  by code_simp

lemma enum_sample_docs:
  "\<not> docs_mention enum_project_markers2 ''deprecated''"
  "\<not> docs_mention enum_project_markers2 ''discouraged''"
  "\<not> docs_mention enum_project_markers3 ''deprecated''"
  "\<not> docs_mention enum_project_markers3 ''discouraged''"
  by code_simp+

lemma enum_sample_names:
  "reawrap_name enum_project_markers2 = Some ''enum_project_markers2''"
  "reawrap_name enum_project_markers3 = Some ''enum_project_markers3''"
  "reawrap_name (count_tracks\<lparr>reawrap_name := Some ''count_tracks''\<rparr>) = Some ''count_tracks''"
  by (simp_all add: enum_project_markers2_def enum_project_markers3_def sample_func_def)

theorem enum_project_markers_override_witness:
  "(''ReaProject'', [count_tracks\<lparr>reawrap_name := Some ''count_tracks''\<rparr>,
        enum_project_markers2, enum_project_markers3])
     \<in> set [(''MediaTrack'', []),
            (''ReaProject'', [count_tracks\<lparr>reawrap_name := Some ''count_tracks''\<rparr>,
               enum_project_markers2, enum_project_markers3])]
   \<and> map_of (dedupe_functions [(''MediaTrack'', []),
            (''ReaProject'', [count_tracks\<lparr>reawrap_name := Some ''count_tracks''\<rparr>,
               enum_project_markers2, enum_project_markers3])]) ''ReaProject''
       = Some [count_tracks\<lparr>reawrap_name := Some ''count_tracks''\<rparr>,
               enum_project_markers3\<lparr>reawrap_name := Some ''enum_project_markers''\<rparr>]"
proof -
  let ?fs = "[count_tracks\<lparr>reawrap_name := Some ''count_tracks''\<rparr>,
        enum_project_markers2, enum_project_markers3]"
  let ?t = "[(''MediaTrack'', []), (''ReaProject'', ?fs)]"
  have k: "distinct (map fst ?t)" by simp
  have m: "(''ReaProject'', ?fs) \<in> set ?t" by simp
  have i2: "enum_project_markers2 \<in> set ?fs" and i3: "enum_project_markers3 \<in> set ?fs"
    by simp_all
  have only: "\<forall>g \<in> set ?fs. reawrap_name g = Some ''enum_project_markers''
              \<or> reawrap_name g = Some ''enum_project_markers3'' \<longrightarrow> g = enum_project_markers3"
    by (simp add: enum_sample_names)
  from enum_project_markers_override
    [OF k m i2 enum_sample_names(1) i3 enum_sample_names(2) enum_sample_docs only]
  have "map_of (dedupe_functions ?t) ''ReaProject'' = Some (dedupe_name_space ''ReaProject'' ?fs)"
    by (elim conjE)
  with m show ?thesis
    by (simp only: enum_sample)
qed

section \<open>What the matcher accepts\<close>

lemma prev_after_Nil: "prev_after prev [] = prev"
  by (simp add: prev_after_def)

lemma prev_after_Cons: "prev_after prev (c # us) = prev_after (Some c) us"
  by (simp add: prev_after_def)

lemma re_items_length: "re_items its prev s = Some (gs, r) \<Longrightarrow> length gs = length its"
  by (induction its prev s arbitrary: gs r rule: re_items.induct)
     (auto simp: skip_def split: if_splits option.splits list.splits)

lemma re_items_Many_groups: "re_items (Many p # its) prev s \<noteq> Some ([], r)"
  using re_items_length [of "Many p # its" prev s "[]" r] by auto

lemma skip_None: "(skip m = None) = (m = None)"
  by (simp add: skip_def)

lemma matches_Nil: "matches [] prev s"
  by (simp add: matches_def)

lemma matches_One:
  "matches (One p # its) prev s = (\<exists>c r. s = c # r \<and> p c \<and> matches its (Some c) r)"
  unfolding matches_def by (cases s) (simp_all del: not_None_eq)

lemma matches_Many_Nil: "matches (Many p # its) prev [] = matches its prev []"
  unfolding matches_def by (simp add: skip_None)

lemma matches_Many_Cons:
  "matches (Many p # its) prev (c # cs) =
     ((p c \<and> matches (Many p # its) (Some c) cs) \<or> matches its prev (c # cs))"
proof (cases "re_items (Many p # its) (Some c) cs")
  case None
  then show ?thesis
    unfolding matches_def by (simp add: skip_None del: not_None_eq)
next
  case (Some m)
  obtain gs r where m: "m = (gs, r)" by (cases m)
  with Some re_items_Many_groups [of p its "Some c" cs r] obtain g gs' where "gs = g # gs'"
    by (cases gs) auto
  with Some m show ?thesis
    unfolding matches_def by (simp add: skip_None del: not_None_eq)
qed

lemma matches_Many1_Nil: "\<not> matches (Many1 p # its) prev []"
  unfolding matches_def by simp

lemma matches_Many1_Cons:
  "matches (Many1 p # its) prev (c # cs) = (p c \<and> matches (Many p # its) (Some c) cs)"
proof (cases "re_items (Many p # its) (Some c) cs")
  case None
  then show ?thesis
    unfolding matches_def by (simp del: not_None_eq)
next
  case (Some m)
  obtain gs r where m: "m = (gs, r)" by (cases m)
  with Some re_items_Many_groups [of p its "Some c" cs r] obtain g gs' where "gs = g # gs'"
    by (cases gs) auto
  with Some m show ?thesis
    unfolding matches_def by (simp del: not_None_eq)
qed

lemma matches_Many_intro:
  "list_all p us \<Longrightarrow> matches its (prev_after prev us) r \<Longrightarrow> matches (Many p # its) prev (us @ r)"
proof (induction us arbitrary: prev)
  case Nil
  then show ?case
    by (cases r) (simp_all add: prev_after_Nil matches_Many_Nil matches_Many_Cons)
next
  case (Cons u us)
  from Cons.prems have "matches (Many p # its) (Some u) (us @ r)"
    by (intro Cons.IH) (simp_all add: prev_after_Cons)
  with Cons.prems show ?case
    by (simp add: matches_Many_Cons)
qed

lemma matches_Many_elim:
  "matches (Many p # its) prev s \<Longrightarrow>
   \<exists>us r. s = us @ r \<and> list_all p us \<and> matches its (prev_after prev us) r"
proof (induction s arbitrary: prev)
  case Nil
  then have "[] = [] @ [] \<and> list_all p [] \<and> matches its (prev_after prev []) []"
    by (simp add: matches_Many_Nil prev_after_Nil)
  then show ?case
    by (intro exI [of _ "[]"]) assumption
next
  case (Cons c cs)
  show ?case
  proof (cases "p c \<and> matches (Many p # its) (Some c) cs")
    case True
    then have "\<exists>us r. cs = us @ r \<and> list_all p us \<and> matches its (prev_after (Some c) us) r"
      by (intro Cons.IH) simp
    then obtain us r where u: "cs = us @ r \<and> list_all p us \<and>
        matches its (prev_after (Some c) us) r"
      by (elim exE)
    with True have "c # cs = (c # us) @ r \<and> list_all p (c # us) \<and>
        matches its (prev_after prev (c # us)) r"
      by (simp add: prev_after_Cons)
    then show ?thesis
      by (intro exI [of _ "c # us"] exI [of _ r]) assumption
  next
    case False
    with Cons.prems have "matches its prev (c # cs)"
      by (simp add: matches_Many_Cons)
    then have "c # cs = [] @ (c # cs) \<and> list_all p [] \<and>
        matches its (prev_after prev []) (c # cs)"
      by (simp add: prev_after_Nil)
    then show ?thesis
      by (intro exI [of _ "[]"] exI [of _ "c # cs"]) assumption
  qed
qed

lemma matches_Many:
  "matches (Many p # its) prev s =
     (\<exists>us r. s = us @ r \<and> list_all p us \<and> matches its (prev_after prev us) r)"
proof
  assume "matches (Many p # its) prev s"
  then show "\<exists>us r. s = us @ r \<and> list_all p us \<and> matches its (prev_after prev us) r"
    by (rule matches_Many_elim)
next
  assume "\<exists>us r. s = us @ r \<and> list_all p us \<and> matches its (prev_after prev us) r"
  then obtain us r where "s = us @ r" "list_all p us" "matches its (prev_after prev us) r"
    by blast
  then show "matches (Many p # its) prev s"
    by (simp add: matches_Many_intro)
qed

lemma matches_Many1:
  "matches (Many1 p # its) prev s =
     (\<exists>us r. s = us @ r \<and> us \<noteq> [] \<and> list_all p us \<and> matches its (prev_after prev us) r)"
proof
  assume m: "matches (Many1 p # its) prev s"
  then obtain c cs where s: "s = c # cs"
    by (cases s) (simp_all add: matches_Many1_Nil)
  with m have "p c" "matches (Many p # its) (Some c) cs"
    by (simp_all add: matches_Many1_Cons)
  from matches_Many_elim [OF this(2)]
  obtain us r where "cs = us @ r" "list_all p us" "matches its (prev_after (Some c) us) r"
    by blast
  with s \<open>p c\<close> have "s = (c # us) @ r \<and> c # us \<noteq> [] \<and> list_all p (c # us) \<and>
      matches its (prev_after prev (c # us)) r"
    by (simp add: prev_after_Cons)
  then show "\<exists>us r. s = us @ r \<and> us \<noteq> [] \<and> list_all p us \<and> matches its (prev_after prev us) r"
    by blast
next
  assume "\<exists>us r. s = us @ r \<and> us \<noteq> [] \<and> list_all p us \<and> matches its (prev_after prev us) r"
  then obtain us r where u: "s = us @ r" "us \<noteq> []" "list_all p us"
      "matches its (prev_after prev us) r"
    by blast
  then obtain c us' where us: "us = c # us'"
    by (cases us) auto
  with u have "p c" "list_all p us'" "matches its (prev_after (Some c) us') r"
    by (simp_all add: prev_after_Cons)
  then have "matches (Many p # its) (Some c) (us' @ r)"
    by (intro matches_Many_intro)
  with u(1) us \<open>p c\<close> show "matches (Many1 p # its) prev s"
    by (simp add: matches_Many1_Cons)
qed

lemma matches_Boundary:
  "matches (Boundary # its) prev s = (word_before prev \<noteq> word_after s \<and> matches its prev s)"
  unfolding matches_def by (simp add: skip_None del: not_None_eq)

lemma matches_Ahead:
  "matches (Ahead la # its) prev s = (matches la prev s \<and> matches its prev s)"
  unfolding matches_def by (cases "re_items la prev s") (simp_all add: skip_None del: not_None_eq)

lemma search_Nil: "(re_search pat prev [] \<noteq> None) = matches pat prev []"
  by (simp add: matches_def)

lemma search_Cons:
  "(re_search pat prev (c # cs) \<noteq> None) =
     (matches pat prev (c # cs) \<or> re_search pat (Some c) cs \<noteq> None)"
  unfolding matches_def by (cases "re_items pat prev (c # cs)") (simp_all del: not_None_eq)

lemma search_intro:
  "matches pat (prev_after prev pre) post \<Longrightarrow> re_search pat prev (pre @ post) \<noteq> None"
proof (induction pre arbitrary: prev)
  case Nil
  then show ?case
    by (cases post) (simp_all only: append_Nil prev_after_Nil search_Nil search_Cons, simp_all)
next
  case (Cons c pre)
  then have "re_search pat (Some c) (pre @ post) \<noteq> None"
    by (intro Cons.IH) (simp add: prev_after_Cons)
  then show ?case
    by (simp only: append_Cons search_Cons) simp
qed

lemma search_elim:
  "re_search pat prev s \<noteq> None \<Longrightarrow>
   \<exists>pre post. s = pre @ post \<and> matches pat (prev_after prev pre) post"
proof (induction s arbitrary: prev)
  case Nil
  then have "[] = [] @ [] \<and> matches pat (prev_after prev []) []"
    by (simp only: search_Nil prev_after_Nil) simp
  then show ?case
    by (intro exI [of _ "[]"]) assumption
next
  case (Cons c cs)
  show ?case
  proof (cases "matches pat prev (c # cs)")
    case True
    then have "c # cs = [] @ (c # cs) \<and> matches pat (prev_after prev []) (c # cs)"
      by (simp add: prev_after_Nil)
    then show ?thesis
      by (intro exI [of _ "[]"] exI [of _ "c # cs"]) assumption
  next
    case False
    with Cons.prems have "re_search pat (Some c) cs \<noteq> None"
      by (simp only: search_Cons) simp
    then have "\<exists>pre post. cs = pre @ post \<and> matches pat (prev_after (Some c) pre) post"
      by (rule Cons.IH)
    then obtain pre post where "cs = pre @ post \<and> matches pat (prev_after (Some c) pre) post"
      by (elim exE)
    then have "c # cs = (c # pre) @ post \<and> matches pat (prev_after prev (c # pre)) post"
      by (simp add: prev_after_Cons)
    then show ?thesis
      by (intro exI [of _ "c # pre"] exI [of _ post]) assumption
  qed
qed

lemma matches_search:
  "(re_search pat prev s \<noteq> None) =
     (\<exists>pre post. s = pre @ post \<and> matches pat (prev_after prev pre) post)"
proof
  assume "re_search pat prev s \<noteq> None"
  then show "\<exists>pre post. s = pre @ post \<and> matches pat (prev_after prev pre) post"
    by (rule search_elim)
next
  assume "\<exists>pre post. s = pre @ post \<and> matches pat (prev_after prev pre) post"
  then obtain pre post where "s = pre @ post" "matches pat (prev_after prev pre) post"
    by blast
  then show "re_search pat prev s \<noteq> None"
    using search_intro [of pat prev pre post] by simp
qed

section \<open>The shapes the two patterns accept\<close>

lemma space_not_paren: "list_all is_space ws \<Longrightarrow> CHR '')'' \<notin> set ws"
  by (induction ws) (auto simp: is_space_def)

lemma not_paren_all: "list_all (\<lambda>c. c \<noteq> CHR '')'') b = (CHR '')'' \<notin> set b)"
  by (induction b) auto

lemma matches_close:
  "matches [One (\<lambda>c. c = CHR '')'')] prev s = (\<exists>rest. s = CHR '')'' # rest)"
  by (auto simp: matches_One matches_Nil)

lemma matches_open:
  "matches (One (\<lambda>c. c = CHR ''('') # its) prev s =
     (\<exists>rest. s = CHR ''('' # rest \<and> matches its (Some CHR ''('') rest)"
  by (auto simp: matches_One)

lemma matches_body_elim:
  assumes "matches [Many is_space, Many (\<lambda>c. c \<noteq> CHR '')''), Many is_space,
                     One (\<lambda>c. c = CHR '')'')] prev s"
  shows "\<exists>body rest. s = body @ CHR '')'' # rest \<and> CHR '')'' \<notin> set body"
proof -
  from matches_Many_elim [OF assms] obtain w2 r4 where
    1: "s = w2 @ r4 \<and> list_all is_space w2 \<and>
        matches [Many (\<lambda>c. c \<noteq> CHR '')''), Many is_space, One (\<lambda>c. c = CHR '')'')]
          (prev_after prev w2) r4"
    by (elim exE)
  then have "matches [Many (\<lambda>c. c \<noteq> CHR '')''), Many is_space, One (\<lambda>c. c = CHR '')'')]
          (prev_after prev w2) r4"
    by simp
  from matches_Many_elim [OF this] obtain b r5 where
    2: "r4 = b @ r5 \<and> list_all (\<lambda>c. c \<noteq> CHR '')'') b \<and>
        matches [Many is_space, One (\<lambda>c. c = CHR '')'')]
          (prev_after (prev_after prev w2) b) r5"
    by (elim exE)
  then have "matches [Many is_space, One (\<lambda>c. c = CHR '')'')]
          (prev_after (prev_after prev w2) b) r5"
    by simp
  from matches_Many_elim [OF this] obtain w3 r6 where
    3: "r5 = w3 @ r6 \<and> list_all is_space w3 \<and>
        matches [One (\<lambda>c. c = CHR '')'')]
          (prev_after (prev_after (prev_after prev w2) b) w3) r6"
    by (elim exE)
  then obtain rest where 4: "r6 = CHR '')'' # rest"
    unfolding matches_close by (elim exE conjE)
  have "s = (w2 @ b @ w3) @ CHR '')'' # rest \<and> CHR '')'' \<notin> set (w2 @ b @ w3)"
    using 1 2 3 4 by (simp add: space_not_paren not_paren_all)
  then show ?thesis
    by (intro exI [of _ "w2 @ b @ w3"] exI [of _ rest]) assumption
qed

lemma matches_body_intro:
  assumes "CHR '')'' \<notin> set body"
  shows "matches [Many is_space, Many (\<lambda>c. c \<noteq> CHR '')''), Many is_space,
                   One (\<lambda>c. c = CHR '')'')] prev (body @ CHR '')'' # rest)"
proof -
  have b: "list_all (\<lambda>c. c \<noteq> CHR '')'') body"
    using assms by (simp add: not_paren_all)
  have e: "list_all is_space []"
    by simp
  have 1: "matches [One (\<lambda>c. c = CHR '')'')] (prev_after (prev_after prev body) [])
             (CHR '')'' # rest)"
    by (simp add: matches_close)
  have 2: "matches [Many is_space, One (\<lambda>c. c = CHR '')'')] (prev_after prev body)
             (CHR '')'' # rest)"
    using matches_Many_intro [OF e 1] by simp
  have 3: "matches [Many (\<lambda>c. c \<noteq> CHR '')''), Many is_space, One (\<lambda>c. c = CHR '')'')]
             (prev_after prev []) (body @ CHR '')'' # rest)"
    using matches_Many_intro [OF b, of _ "prev_after prev []" "CHR '')'' # rest"] 2
    by (simp add: prev_after_Nil)
  show ?thesis
    using matches_Many_intro [OF e 3] by simp
qed

lemma signature_pattern_elim:
  assumes "matches signature_pattern prev s"
  shows "signature_shaped s"
proof -
  from assms obtain nm r1 where
    1: "s = nm @ r1 \<and> nm \<noteq> [] \<and> list_all is_word nm \<and>
        matches [Many is_space, One (\<lambda>c. c = CHR ''(''), Many is_space,
          Many (\<lambda>c. c \<noteq> CHR '')''), Many is_space, One (\<lambda>c. c = CHR '')'')]
          (prev_after prev nm) r1"
    unfolding signature_pattern_def matches_Many1 by (elim exE)
  then have "matches [Many is_space, One (\<lambda>c. c = CHR ''(''), Many is_space,
          Many (\<lambda>c. c \<noteq> CHR '')''), Many is_space, One (\<lambda>c. c = CHR '')'')]
          (prev_after prev nm) r1"
    by simp
  from matches_Many_elim [OF this] obtain ws r2 where
    2: "r1 = ws @ r2 \<and> list_all is_space ws \<and>
        matches [One (\<lambda>c. c = CHR ''(''), Many is_space,
          Many (\<lambda>c. c \<noteq> CHR '')''), Many is_space, One (\<lambda>c. c = CHR '')'')]
          (prev_after (prev_after prev nm) ws) r2"
    by (elim exE)
  then obtain r3 where
    3: "r2 = CHR ''('' # r3 \<and> matches [Many is_space,
          Many (\<lambda>c. c \<noteq> CHR '')''), Many is_space, One (\<lambda>c. c = CHR '')'')]
          (Some CHR ''('') r3"
    unfolding matches_open by auto
  then have "matches [Many is_space,
          Many (\<lambda>c. c \<noteq> CHR '')''), Many is_space, One (\<lambda>c. c = CHR '')'')]
          (Some CHR ''('') r3"
    by simp
  from matches_body_elim [OF this] obtain body rest where
    4: "r3 = body @ CHR '')'' # rest \<and> CHR '')'' \<notin> set body"
    by (elim exE)
  have "s = nm @ ws @ ''('' @ body @ '')'' @ rest \<and> nm \<noteq> [] \<and>
        list_all is_word nm \<and> list_all is_space ws \<and> CHR '')'' \<notin> set body"
    using 1 2 3 4 by simp
  then show ?thesis
    unfolding signature_shaped_def
    by (intro exI [of _ nm] exI [of _ ws] exI [of _ body] exI [of _ rest]) assumption
qed

lemma signature_pattern_intro:
  assumes "nm \<noteq> []" "list_all is_word nm" "list_all is_space ws" "CHR '')'' \<notin> set body"
  shows "matches signature_pattern prev (nm @ ws @ ''('' @ body @ '')'' @ rest)"
proof -
  have 1: "matches [Many is_space, Many (\<lambda>c. c \<noteq> CHR '')''), Many is_space,
                   One (\<lambda>c. c = CHR '')'')] (Some CHR ''('') (body @ CHR '')'' # rest)"
    using assms(4) by (rule matches_body_intro)
  have 2: "matches [One (\<lambda>c. c = CHR ''(''), Many is_space,
          Many (\<lambda>c. c \<noteq> CHR '')''), Many is_space, One (\<lambda>c. c = CHR '')'')]
          (prev_after (prev_after prev nm) ws) (CHR ''('' # body @ CHR '')'' # rest)"
    using 1 by (simp add: matches_open)
  have 3: "matches [Many is_space, One (\<lambda>c. c = CHR ''(''), Many is_space,
          Many (\<lambda>c. c \<noteq> CHR '')''), Many is_space, One (\<lambda>c. c = CHR '')'')]
          (prev_after prev nm) (ws @ CHR ''('' # body @ CHR '')'' # rest)"
    using matches_Many_intro [OF assms(3) 2] .
  have "nm @ ws @ CHR ''('' # body @ CHR '')'' # rest = nm @ (ws @ CHR ''('' # body @ CHR '')'' # rest)
      \<and> nm \<noteq> [] \<and> list_all is_word nm \<and>
      matches [Many is_space, One (\<lambda>c. c = CHR ''(''), Many is_space,
          Many (\<lambda>c. c \<noteq> CHR '')''), Many is_space, One (\<lambda>c. c = CHR '')'')]
          (prev_after prev nm) (ws @ CHR ''('' # body @ CHR '')'' # rest)"
    using assms(1,2) 3 by simp
  then have "\<exists>us r. nm @ ws @ CHR ''('' # body @ CHR '')'' # rest = us @ r \<and> us \<noteq> []
      \<and> list_all is_word us \<and>
      matches [Many is_space, One (\<lambda>c. c = CHR ''(''), Many is_space,
          Many (\<lambda>c. c \<noteq> CHR '')''), Many is_space, One (\<lambda>c. c = CHR '')'')]
          (prev_after prev us) r"
    by (intro exI [of _ nm] exI [of _ "ws @ CHR ''('' # body @ CHR '')'' # rest"]) assumption
  then show ?thesis
    unfolding signature_pattern_def matches_Many1 by simp
qed

lemma signature_pattern_shape: "(re_match signature_pattern s \<noteq> None) = signature_shaped s"
proof
  assume "re_match signature_pattern s \<noteq> None"
  then have "matches signature_pattern None s"
    by (simp add: re_match_def matches_def)
  then show "signature_shaped s"
    by (rule signature_pattern_elim)
next
  assume "signature_shaped s"
  then obtain nm ws body rest where "s = nm @ ws @ ''('' @ body @ '')'' @ rest \<and> nm \<noteq> [] \<and>
        list_all is_word nm \<and> list_all is_space ws \<and> CHR '')'' \<notin> set body"
    unfolding signature_shaped_def by (elim exE)
  then have "matches signature_pattern None s"
    using signature_pattern_intro [of nm ws body None rest] by simp
  then show "re_match signature_pattern s \<noteq> None"
    by (simp add: re_match_def matches_def)
qed

lemma lookahead_elim:
  assumes "matches [Many is_space, One (\<lambda>c. c = CHR ''('')] prev r"
  shows "\<exists>ws post. r = ws @ CHR ''('' # post \<and> list_all is_space ws"
proof -
  from matches_Many_elim [OF assms] obtain ws r2 where
    1: "r = ws @ r2 \<and> list_all is_space ws \<and>
        matches [One (\<lambda>c. c = CHR ''('')] (prev_after prev ws) r2"
    by (elim exE)
  then obtain post where 2: "r2 = CHR ''('' # post"
    unfolding matches_open by auto
  from 1 2 have "r = ws @ CHR ''('' # post \<and> list_all is_space ws"
    by simp
  then show ?thesis
    by (intro exI [of _ ws] exI [of _ post]) assumption
qed

lemma lookahead_intro:
  assumes "list_all is_space ws"
  shows "matches [Many is_space, One (\<lambda>c. c = CHR ''('')] prev (ws @ CHR ''('' # post)"
proof -
  have "matches [One (\<lambda>c. c = CHR ''('')] (prev_after prev ws) (CHR ''('' # post)"
    by (simp add: matches_open matches_Nil)
  from matches_Many_intro [OF assms this] show ?thesis .
qed

lemma word_after_append: "nm \<noteq> [] \<Longrightarrow> list_all is_word nm \<Longrightarrow> word_after (nm @ r)"
  by (cases nm) (simp_all add: word_after_def)

lemma word_before_prev_after:
  "word_before (prev_after None pre) = (pre \<noteq> [] \<and> is_word (last pre))"
  by (simp add: word_before_def prev_after_def)

lemma name_pattern_elim:
  assumes "matches name_pattern prev s"
  shows "\<not> word_before prev \<and> (\<exists>nm ws post. s = nm @ ws @ CHR ''('' # post \<and> nm \<noteq> [] \<and>
           list_all is_word nm \<and> list_all is_space ws)"
proof -
  from assms have b: "word_before prev \<noteq> word_after s"
    and m: "matches [Many1 is_word, Ahead [Many is_space, One (\<lambda>c. c = CHR ''('')]] prev s"
    unfolding name_pattern_def matches_Boundary by simp_all
  from m obtain nm r where
    1: "s = nm @ r \<and> nm \<noteq> [] \<and> list_all is_word nm \<and>
        matches [Ahead [Many is_space, One (\<lambda>c. c = CHR ''('')]] (prev_after prev nm) r"
    unfolding matches_Many1 by (elim exE)
  then have "matches [Many is_space, One (\<lambda>c. c = CHR ''('')] (prev_after prev nm) r"
    unfolding matches_Ahead by simp
  from lookahead_elim [OF this] obtain ws post where
    2: "r = ws @ CHR ''('' # post \<and> list_all is_space ws"
    by (elim exE)
  from 1 have "word_after s"
    by (simp add: word_after_append)
  with b have nb: "\<not> word_before prev"
    by simp
  from 1 2 have "s = nm @ ws @ CHR ''('' # post \<and> nm \<noteq> [] \<and>
           list_all is_word nm \<and> list_all is_space ws"
    by simp
  then have "\<exists>nm ws post. s = nm @ ws @ CHR ''('' # post \<and> nm \<noteq> [] \<and>
           list_all is_word nm \<and> list_all is_space ws"
    by (intro exI [of _ nm] exI [of _ ws] exI [of _ post]) assumption
  with nb show ?thesis by simp
qed

lemma name_pattern_intro:
  assumes "\<not> word_before prev" "nm \<noteq> []" "list_all is_word nm" "list_all is_space ws"
  shows "matches name_pattern prev (nm @ ws @ CHR ''('' # post)"
proof -
  have la: "matches [Many is_space, One (\<lambda>c. c = CHR ''('')] (prev_after prev nm)
              (ws @ CHR ''('' # post)"
    using assms(4) by (rule lookahead_intro)
  then have "nm @ ws @ CHR ''('' # post = nm @ (ws @ CHR ''('' # post) \<and> nm \<noteq> [] \<and>
      list_all is_word nm \<and>
      matches [Ahead [Many is_space, One (\<lambda>c. c = CHR ''('')]] (prev_after prev nm)
        (ws @ CHR ''('' # post)"
    using assms(2,3) by (simp add: matches_Ahead matches_Nil)
  then have "\<exists>us r. nm @ ws @ CHR ''('' # post = us @ r \<and> us \<noteq> [] \<and> list_all is_word us \<and>
      matches [Ahead [Many is_space, One (\<lambda>c. c = CHR ''('')]] (prev_after prev us) r"
    by (intro exI [of _ nm] exI [of _ "ws @ CHR ''('' # post"]) assumption
  then have "matches [Many1 is_word, Ahead [Many is_space, One (\<lambda>c. c = CHR ''('')]] prev
      (nm @ ws @ CHR ''('' # post)"
    unfolding matches_Many1 .
  moreover have "word_after (nm @ ws @ CHR ''('' # post)"
    using assms(2,3) by (rule word_after_append)
  ultimately show ?thesis
    unfolding name_pattern_def matches_Boundary using assms(1) by simp
qed

lemma name_pattern_search: "(re_search name_pattern None s \<noteq> None) = called_name_in s"
proof
  assume "re_search name_pattern None s \<noteq> None"
  from search_elim [OF this] obtain pre post0 where
    1: "s = pre @ post0 \<and> matches name_pattern (prev_after None pre) post0"
    by (elim exE)
  then have "matches name_pattern (prev_after None pre) post0"
    by simp
  from name_pattern_elim [OF this] obtain nm ws post where
    2: "\<not> word_before (prev_after None pre)"
       "post0 = nm @ ws @ CHR ''('' # post \<and> nm \<noteq> [] \<and>
           list_all is_word nm \<and> list_all is_space ws"
    by (elim exE conjE) simp
  from 1 2 have "s = pre @ nm @ ws @ ''('' @ post \<and> nm \<noteq> [] \<and>
        list_all is_word nm \<and> list_all is_space ws \<and> \<not> word_before (prev_after None pre)"
    by simp
  then show "called_name_in s"
    unfolding called_name_in_def
    by (intro exI [of _ pre] exI [of _ nm] exI [of _ ws] exI [of _ post]) assumption
next
  assume "called_name_in s"
  then obtain pre nm ws post where 1: "s = pre @ nm @ ws @ ''('' @ post \<and> nm \<noteq> [] \<and>
        list_all is_word nm \<and> list_all is_space ws \<and> \<not> word_before (prev_after None pre)"
    unfolding called_name_in_def by (elim exE)
  then have "matches name_pattern (prev_after None pre) (nm @ ws @ CHR ''('' # post)"
    by (intro name_pattern_intro) simp_all
  from search_intro [OF this] 1 show "re_search name_pattern None s \<noteq> None"
    by simp
qed

section \<open>Parse errors\<close>

lemma first_signature_None:
  "(first_signature parts = None) = (\<forall>part \<in> set parts. \<not> signature_shaped part)"
  by (induction parts) (auto simp: signature_pattern_shape [symmetric] split: option.splits)

lemma get_function_signature_fails:
  "isl (get_function_signature parts) = (\<forall>part \<in> set parts. \<not> signature_shaped part)"
  by (simp add: get_function_signature_def first_signature_None [symmetric] split: option.splits)

lemma get_function_signature_error:
  "isl (get_function_signature parts) \<Longrightarrow>
   get_function_signature parts = Inl (ValueError ''Could not find function signature in'' parts)"
  by (simp add: get_function_signature_def split: option.splits)

lemma get_function_name_fails: "isl (get_function_name sig) = (\<not> called_name_in sig)"
  by (simp add: get_function_name_def name_pattern_search [symmetric] split: option.splits)

lemma get_function_name_error:
  "isl (get_function_name sig) \<Longrightarrow>
   get_function_name sig = Inl (ValueError ''Could not find function name in'' [sig])"
  by (auto simp: get_function_name_def split: option.splits prod.splits)

lemma parse_lua_function_signature_error:
  "isl (get_function_signature (split_once text ''reaper.'')) \<Longrightarrow>
   isl (parse_lua_function kw text)"
  by (auto simp: parse_lua_function_def Let_def split: sum.splits)

lemma parse_lua_function_name_error:
  assumes "parse_lua_function kw text = Inr f"
  shows "\<not> isl (get_function_signature (split_once text ''reaper.''))
       \<and> \<not> isl (get_function_name (signature f))"
  using assms by (auto simp: parse_lua_function_def Let_def split: sum.splits)

lemma isl_yield: "isl (yield x rest) = isl rest"
  by (simp add: yield_def split: sum.splits)

lemma api_functions_fails:
  "isl (api_functions kw p_text parse_constants funcs) =
     (\<exists>func \<in> set funcs. isl (parse_lua_function kw (l_func func)))"
  by (induction funcs) (auto simp: isl_yield Let_def split: sum.splits)

lemma iter_lua_functions_fails:
  "func \<in> set functions_all \<Longrightarrow> isl (parse_lua_function kw (l_func func)) \<Longrightarrow>
   isl (iter_lua_functions kw p_text parse_constants functions_all lua built_in)"
  using api_functions_fails [of kw p_text parse_constants functions_all]
  by (auto simp: iter_lua_functions_def split: sum.splits)

lemma word_then_paren_mid: "is_word c \<Longrightarrow> word_then_paren (xs @ c # CHR ''('' # ys)"
proof (induction xs)
  case Nil
  then show ?case by simp
next
  case (Cons x xs)
  then show ?case by (cases xs) simp_all
qed

lemma name_directly_before_paren_adjacent:
  assumes "name_directly_before_paren s"
  shows "word_then_paren s"
proof -
  from assms obtain pre nm post where
    1: "s = pre @ nm @ ''('' @ post \<and> nm \<noteq> [] \<and> list_all is_word nm \<and>
        \<not> word_before (prev_after None pre)"
    unfolding name_directly_before_paren_def by (elim exE)
  then have nm: "nm = butlast nm @ [last nm]" and w: "is_word (last nm)"
    by (simp_all add: list_all_iff)
  from 1 have "s = pre @ (butlast nm @ [last nm]) @ ''('' @ post"
    using nm by simp
  then have "s = (pre @ butlast nm) @ last nm # CHR ''('' # post"
    by simp
  with word_then_paren_mid [OF w, of "pre @ butlast nm" post] show ?thesis
    by simp
qed

lemma signature_shaped_called: "signature_shaped s \<Longrightarrow> called_name_in s"
proof -
  assume "signature_shaped s"
  then obtain nm ws body rest where 1: "s = nm @ ws @ ''('' @ body @ '')'' @ rest \<and> nm \<noteq> [] \<and>
        list_all is_word nm \<and> list_all is_space ws \<and> CHR '')'' \<notin> set body"
    unfolding signature_shaped_def by (elim exE)
  then have "s = [] @ nm @ ws @ ''('' @ (body @ '')'' @ rest) \<and> nm \<noteq> [] \<and>
        list_all is_word nm \<and> list_all is_space ws \<and> \<not> word_before (prev_after None [])"
    by (simp add: prev_after_Nil word_before_def)
  then show "called_name_in s"
    unfolding called_name_in_def
    by (intro exI [of _ "[]"] exI [of _ nm] exI [of _ ws] exI [of _ "body @ '')'' @ rest"])
      assumption
qed

lemma first_signature_Some:
  "first_signature parts = Some sig \<Longrightarrow> sig \<in> set parts \<and> signature_shaped sig"
  by (induction parts)
     (auto simp: signature_pattern_shape [symmetric] split: option.splits)

lemma get_function_name_after_signature:
  assumes "get_function_signature parts = Inr sig"
  shows "\<not> isl (get_function_name sig)"
proof -
  from assms have "first_signature parts = Some sig"
    by (simp add: get_function_signature_def split: option.splits)
  then have "signature_shaped sig"
    by (simp add: first_signature_Some)
  then show ?thesis
    by (simp add: get_function_name_fails signature_shaped_called)
qed

lemma parse_lua_function_steps:
  assumes "parse_lua_function kw fragment = Inr f"
  shows "get_function_signature (split_once fragment ''reaper.'') = Inr (signature f)
       \<and> get_function_name (signature f) = Inr (reascript_name f)"
  using assms by (auto simp: parse_lua_function_def Let_def split: sum.splits)

lemma latin1_samples:
  "get_function_signature [[CHR ''f'', CHR 0xA0, CHR ''('', CHR '')'']]
     = Inr [CHR ''f'', CHR 0xA0, CHR ''('', CHR '')'']"
  "get_function_name [CHR 0xE9, CHR ''(''] = Inr [CHR 0xE9]"
  by code_simp+

lemma spaced_name_sample:
  "get_function_name ''foo (x)'' = Inr ''foo''" "\<not> word_then_paren ''foo (x)''"
  by code_simp+

text \<open>
  Claim C8, as stated, has \<open>get_function_name\<close> raise when no name is immediately followed
  by an opening parenthesis. In \<open>foo (x)\<close> no name is, and the function returns \<open>foo\<close>.
\<close>

theorem get_function_name_spaced_counterexample:
  "get_function_name ''foo (x)'' = Inr ''foo'' \<and> \<not> name_directly_before_paren ''foo (x)''"
  using spaced_name_sample name_directly_before_paren_adjacent [of "''foo (x)''"] by blast

text \<open>
  Claim C8, amended. \<open>get_function_signature\<close> raises exactly when no part begins with a
  name, optional whitespace and a parenthesised argument list, and the error is the
  \<open>ValueError\<close> naming the parts; \<open>get_function_name\<close> raises exactly when the signature
  holds no name that starts at a word boundary and is followed, after optional
  whitespace, by an opening parenthesis, and the error is the \<open>ValueError\<close> naming the
  signature. \<open>parse_lua_function\<close> fails when \<open>get_function_signature\<close> fails, and it
  returns only when both functions have returned, with the signature and the name they
  gave. A failure of \<open>parse_lua_function\<close> on an entry of the section of API functions
  makes the whole iteration fail: nothing swallows it.
\<close>

theorem parse_errors_are_raised:
  "isl (get_function_signature parts) = (\<forall>part \<in> set parts. \<not> signature_shaped part)
   \<and> (isl (get_function_signature parts) \<longrightarrow>
        get_function_signature parts
          = Inl (ValueError ''Could not find function signature in'' parts))
   \<and> isl (get_function_name sig) = (\<not> called_name_in sig)
   \<and> (isl (get_function_name sig) \<longrightarrow>
        get_function_name sig = Inl (ValueError ''Could not find function name in'' [sig]))
   \<and> (isl (get_function_signature (split_once fragment ''reaper.'')) \<longrightarrow>
        isl (parse_lua_function kw fragment))
   \<and> (parse_lua_function kw good = Inr f \<longrightarrow>
        get_function_signature (split_once good ''reaper.'') = Inr (signature f)
        \<and> get_function_name (signature f) = Inr (reascript_name f))
   \<and> (func \<in> set functions_all \<longrightarrow> isl (parse_lua_function kw (l_func func)) \<longrightarrow>
        isl (iter_lua_functions kw p_text parse_constants functions_all lua built_in))"
  using get_function_signature_fails [of parts] get_function_signature_error [of parts]
    get_function_name_fails [of sig] get_function_name_error [of sig]
    parse_lua_function_signature_error [of fragment kw]
    parse_lua_function_steps [of kw good f]
    iter_lua_functions_fails [of func functions_all kw p_text parse_constants lua built_in]
  by (intro conjI impI) (assumption | simp)+

lemma parse_errors_sample:
  "isl (get_function_signature (split_once ''reaper.defer'' ''reaper.''))"
  "isl (get_function_name ''defer'')"
  "isl (parse_lua_function lua_reserved_words (l_func defer_entry))"
  "parse_lua_function lua_reserved_words ''integer reaper.CountTracks(ReaProject proj)''
     = Inr count_tracks_parsed"
  by code_simp+

theorem parse_errors_are_raised_witness:
  "isl (get_function_signature (split_once ''reaper.defer'' ''reaper.''))
   \<and> \<not> signature_shaped ''defer''
   \<and> get_function_signature (split_once ''reaper.defer'' ''reaper.'')
       = Inl (ValueError ''Could not find function signature in''
                (split_once ''reaper.defer'' ''reaper.''))
   \<and> isl (get_function_name ''defer'')
   \<and> \<not> called_name_in ''defer''
   \<and> get_function_name ''defer'' = Inl (ValueError ''Could not find function name in'' [''defer''])
   \<and> isl (parse_lua_function lua_reserved_words ''reaper.defer'')
   \<and> parse_lua_function lua_reserved_words ''integer reaper.CountTracks(ReaProject proj)''
       = Inr count_tracks_parsed
   \<and> get_function_signature
         (split_once ''integer reaper.CountTracks(ReaProject proj)'' ''reaper.'')
       = Inr (signature count_tracks_parsed)
   \<and> get_function_name (signature count_tracks_parsed)
       = Inr (reascript_name count_tracks_parsed)
   \<and> defer_entry \<in> set [count_tracks_entry, defer_entry]
   \<and> isl (parse_lua_function lua_reserved_words (l_func defer_entry))
   \<and> isl (iter_lua_functions lua_reserved_words (\<lambda>d. d) (\<lambda>d. (d, []))
             [count_tracks_entry, defer_entry] [] False)"
proof -
  note t = parse_errors_are_raised
    [where parts = "split_once ''reaper.defer'' ''reaper.''" and sig = "''defer''"
       and fragment = "''reaper.defer''" and kw = lua_reserved_words and func = defer_entry
       and good = "''integer reaper.CountTracks(ReaProject proj)''" and f = count_tracks_parsed
       and functions_all = "[count_tracks_entry, defer_entry]" and p_text = "\<lambda>d. d"
       and parse_constants = "\<lambda>d. (d, [])" and lua = "[]" and built_in = False]
  have m: "defer_entry \<in> set [count_tracks_entry, defer_entry]"
    by simp
  from t parse_errors_sample(1)
  have a0: "\<forall>part \<in> set (split_once ''reaper.defer'' ''reaper.''). \<not> signature_shaped part"
    and b: "get_function_signature (split_once ''reaper.defer'' ''reaper.'')
       = Inl (ValueError ''Could not find function signature in''
                (split_once ''reaper.defer'' ''reaper.''))"
    and c: "isl (parse_lua_function lua_reserved_words ''reaper.defer'')"
    by blast+
  have "''defer'' \<in> set (split_once ''reaper.defer'' ''reaper.'')"
    by code_simp
  with a0 have a: "\<not> signature_shaped ''defer''"
    by blast
  from t parse_errors_sample(2)
  have d: "\<not> called_name_in ''defer''"
    and e: "get_function_name ''defer''
              = Inl (ValueError ''Could not find function name in'' [''defer''])"
    by blast+
  from t parse_errors_sample(4)
  have g: "get_function_signature
         (split_once ''integer reaper.CountTracks(ReaProject proj)'' ''reaper.'')
       = Inr (signature count_tracks_parsed)"
    and h: "get_function_name (signature count_tracks_parsed)
       = Inr (reascript_name count_tracks_parsed)"
    by blast+
  from t m parse_errors_sample(3)
  have f: "isl (iter_lua_functions lua_reserved_words (\<lambda>d. d) (\<lambda>d. (d, []))
             [count_tracks_entry, defer_entry] [] False)"
    by blast
  from parse_errors_sample a b c d e f g h m show ?thesis
    by (intro conjI)
qed

end
